theory Spec2Isabelle
  imports Main "HOL-Library.Sublist" "HOL-Library.Word"
begin

section \<open>JavaScript values\<close>

text \<open>
  A property that may be absent (\<open>undefined\<close> or \<open>null\<close>) is an option. Strings are
  lists of characters. The only falsy strings-or-absent values are the absent one and the
  empty string, which is what \<open>a || b\<close> and \<open>a && b\<close> test.
\<close>

definition truthy :: "string option \<Rightarrow> bool" where
  "truthy v = (case v of None \<Rightarrow> False | Some s \<Rightarrow> s \<noteq> [])"

text \<open>\<open>a || b\<close> where \<open>a\<close> is a string or absent and \<open>b\<close> is a string.\<close>

definition js_or :: "string option \<Rightarrow> string \<Rightarrow> string" where
  "js_or a b = (case a of None \<Rightarrow> b | Some s \<Rightarrow> if s = [] then b else s)"

text \<open>\<open>String.prototype.includes\<close>: the argument occurs as a contiguous substring.\<close>

fun js_includes :: "string \<Rightarrow> string \<Rightarrow> bool" where
  "js_includes [] sub = (sub = [])"
| "js_includes (c # cs) sub = (prefix sub (c # cs) \<or> js_includes cs sub)"

text \<open>A value interpolated into a template literal: \<open>null\<close> prints as \<open>null\<close>.\<close>

definition js_string :: "string option \<Rightarrow> string" where
  "js_string v = (case v of None \<Rightarrow> ''null'' | Some s \<Rightarrow> s)"

text \<open>
  What the user types into the chat, and what the chat shows, is text in any script: such
  a string is the list of its UTF-16 code units, as in JavaScript. The fixed texts of the
  program are written as 8-bit strings, whose characters are the code units below 256.
\<close>

type_synonym jsstring = "16 word list"




section \<open>Session store and API gateway client\<close>

text \<open>\<open>localStorage\<close>: \<open>getItem\<close> is application, \<open>removeItem k\<close> is \<open>s(k := None)\<close>.\<close>

type_synonym storage = "string \<rightharpoonup> string"

datatype jv = JNull | JString string | JText jsstring

record request =
  req_endpoint :: string
  req_method :: "string option"
  req_body :: "(string \<times> jv) list option"
  req_headers :: "(string \<times> string) list"

text \<open>
  The second argument of \<open>apiCall\<close>. The body is kept as the object handed to
  \<open>JSON.stringify\<close>. The request goes to \<open>${API_BASE_URL}/api/${endpoint}\<close>; the
  base URL is a constant of the deployment and a request is identified by its endpoint.
\<close>

record options =
  opt_method :: "string option"
  opt_body :: "(string \<times> jv) list option"
  opt_headers :: "(string \<times> string) list"

definition no_options :: options where
  "no_options = \<lparr>opt_method = None, opt_body = None, opt_headers = []\<rparr>"

definition post :: "(string \<times> jv) list \<Rightarrow> options" where
  "post b = \<lparr>opt_method = Some ''POST'', opt_body = Some b, opt_headers = []\<rparr>"

datatype effect =
    Fetch request
  | RemoveItem string
  | Reload
  | ConsoleLog string
  | ConsoleError string

datatype js_error =
    NetworkFailure string
  | ApiError nat string string
  | JsonSyntaxError
  | TypeError

text \<open>
  What \<open>fetch\<close> gives back: it rejects, or it resolves to a response with a status, a
  status text, the body as text and the body parsed as JSON when it parses.
\<close>

datatype 'a fetch_result =
    NetworkError string
  | Response nat string string "'a option"

text \<open>An \<open>apiCall\<close> returns data, returns \<open>undefined\<close> (after a 401) or throws.\<close>

datatype 'a outcome =
    Returned "'a option"
  | Thrown js_error

definition getStoredToken :: "storage \<Rightarrow> string option" where
  "getStoredToken sto = sto ''access_token''"

record user =
  email :: "string option"
  accessLevel :: "string option"

definition getStoredUser :: "storage \<Rightarrow> user" where
  "getStoredUser sto = \<lparr>email = sto ''user_email'', accessLevel = sto ''access_level''\<rparr>"

definition clearStoredAuth :: "effect list" where
  "clearStoredAuth =
     [RemoveItem ''access_token'', RemoveItem ''user_email'', RemoveItem ''access_level'']"

fun exec_storage :: "effect \<Rightarrow> storage \<Rightarrow> storage" where
  "exec_storage (RemoveItem k) sto = sto(k := None)"
| "exec_storage _ sto = sto"

definition run_storage :: "effect list \<Rightarrow> storage \<Rightarrow> storage" where
  "run_storage es sto = fold exec_storage es sto"

text \<open>Object spread: a later property replaces an earlier one of the same name.\<close>

definition spread :: "(string \<times> string) list \<Rightarrow> (string \<times> string) list \<Rightarrow> (string \<times> string) list" where
  "spread base over = filter (\<lambda>(k, v). k \<notin> fst ` set over) base @ over"

definition response_ok :: "nat \<Rightarrow> bool" where
  "response_ok status = (200 \<le> status \<and> status \<le> 299)"

text \<open>The request that \<open>apiCall\<close> hands to \<open>fetch\<close>.\<close>

definition build_request :: "storage \<Rightarrow> string \<Rightarrow> options \<Rightarrow> request" where
  "build_request sto endpoint opts =
     (let token = getStoredToken sto in
      \<lparr>req_endpoint = endpoint,
       req_method = opt_method opts,
       req_body = opt_body opts,
       req_headers =
         spread (spread [(''Content-Type'', ''application/json'')]
                   (case token of
                      None \<Rightarrow> []
                    | Some t \<Rightarrow> if t = [] then [] else [(''Authorization'', ''Bearer '' @ t)]))
           (opt_headers opts)\<rparr>)"

text \<open>The part of \<open>apiCall\<close> that runs before \<open>await fetch\<close>.\<close>

definition apiCall_request :: "storage \<Rightarrow> string \<Rightarrow> options \<Rightarrow> effect list" where
  "apiCall_request sto endpoint opts =
     [ConsoleLog ''Making API call to'', Fetch (build_request sto endpoint opts)]"

text \<open>The part of \<open>apiCall\<close> that runs once \<open>fetch\<close> has settled.\<close>

definition apiCall_response :: "string \<Rightarrow> 'a fetch_result \<Rightarrow> effect list \<times> 'a outcome" where
  "apiCall_response endpoint res =
     (case res of
        NetworkError msg \<Rightarrow>
          ([ConsoleError ''API call failed for''], Thrown (NetworkFailure msg))
      | Response status statusText errorText parsed \<Rightarrow>
          if status = 401 then
            ([ConsoleLog ''API response for''] @ clearStoredAuth @ [Reload], Returned None)
          else if \<not> response_ok status then
            ([ConsoleLog ''API response for'', ConsoleError ''API call failed for''],
             Thrown (ApiError status statusText errorText))
          else (case parsed of
                  None \<Rightarrow>
                    ([ConsoleLog ''API response for'', ConsoleError ''API call failed for''],
                     Thrown JsonSyntaxError)
                | Some data \<Rightarrow>
                    ([ConsoleLog ''API response for'', ConsoleLog ''API data for''],
                     Returned (Some data))))"

definition apiCall :: "storage \<Rightarrow> string \<Rightarrow> options \<Rightarrow> 'a fetch_result \<Rightarrow> effect list \<times> 'a outcome" where
  "apiCall sto endpoint opts res =
     (apiCall_request sto endpoint opts @ fst (apiCall_response endpoint res),
      snd (apiCall_response endpoint res))"

section \<open>Transcript data\<close>

record tags =
  tag_sentiment :: "string option"
  tag_theme :: "string option"
  tag_notes :: "string option"

record segment =
  id_seg :: string
  speaker :: string
  text_seg :: string
  edited_text :: "string option"
  editable :: bool
  tags :: "tags option"

record ratings =
  udvalg_af_varer :: int
  overskuelighed_indretning :: int
  stemning_personal :: int
  prisniveau_kvalitet :: int
  samlet_karakter :: int

text \<open>
  The detail of one interview, as \<open>GET interview/{id}\<close> returns it. An absent
  \<open>segments\<close> array and an empty one are both the empty list: the only test on it is
  \<open>segments && segments.length > 0\<close>.
\<close>

record interview_detail =
  supermarket :: string
  timestamp :: string
  duration :: nat
  status :: string
  editable_detail :: bool
  segments :: "segment list"
  transcript :: "string option"
  ratings_detail :: "ratings option"

section \<open>Transcript editor\<close>

subsection \<open>State\<close>

text \<open>The four \<open>useState\<close> hooks of one \<open>SegmentDisplay\<close>.\<close>

record segment_local =
  showTagging :: bool
  selectedSentiment :: string
  selectedTheme :: string
  notes_input :: string

definition segment_local_init :: "segment \<Rightarrow> segment_local" where
  "segment_local_init seg =
     \<lparr>showTagging = False,
      selectedSentiment = js_or (case tags seg of None \<Rightarrow> None | Some t \<Rightarrow> tag_sentiment t) [],
      selectedTheme = js_or (case tags seg of None \<Rightarrow> None | Some t \<Rightarrow> tag_theme t) [],
      notes_input = js_or (case tags seg of None \<Rightarrow> None | Some t \<Rightarrow> tag_notes t) []\<rparr>"

text \<open>
  The seven \<open>useState\<close> hooks of \<open>EnhancedInterviewReaderWidget\<close>, and the local
  states of its mounted \<open>SegmentDisplay\<close> children under their React key
  \<open>segment.id\<close>. A child that has no entry is in its initial state.
\<close>

record reader =
  selectedInterview :: "string option"
  fullTranscript :: "interview_detail option"
  loadingTranscript :: bool
  filter_text :: string
  editingSegment :: "string option"
  editText :: string
  availableThemes :: "string list"
  locals :: "string \<rightharpoonup> segment_local"

definition reader_init :: reader where
  "reader_init =
     \<lparr>selectedInterview = None, fullTranscript = None, loadingTranscript = False,
      filter_text = [], editingSegment = None, editText = [], availableThemes = [],
      locals = Map.empty\<rparr>"

definition local_state :: "reader \<Rightarrow> segment \<Rightarrow> segment_local" where
  "local_state st seg =
     (case locals st (id_seg seg) of None \<Rightarrow> segment_local_init seg | Some l \<Rightarrow> l)"

subsection \<open>Operations of a handler\<close>

text \<open>
  A handler is the list of what it does, in program order: calls of state setters and
  effects on the environment. A handler reads the state of the render it was created
  in; the setters do not change what it reads.
\<close>

datatype reader_op =
    SetSelectedInterview "string option"
  | SetFullTranscript "interview_detail option"
  | SetLoadingTranscript bool
  | SetFilter string
  | SetEditingSegment "string option"
  | SetEditText string
  | SetAvailableThemes "string list"
  | SetShowTagging segment bool
  | SetSelectedSentiment segment string
  | SetSelectedTheme segment string
  | SetNotes segment string
  | UnmountSegments
  | Effect effect

definition set_local :: "segment \<Rightarrow> (segment_local \<Rightarrow> segment_local) \<Rightarrow> reader \<Rightarrow> reader" where
  "set_local seg f st = st\<lparr>locals := (locals st)(id_seg seg \<mapsto> f (local_state st seg))\<rparr>"

fun exec_op :: "reader_op \<Rightarrow> reader \<Rightarrow> reader" where
  "exec_op (SetSelectedInterview v) st = st\<lparr>selectedInterview := v\<rparr>"
| "exec_op (SetFullTranscript v) st = st\<lparr>fullTranscript := v\<rparr>"
| "exec_op (SetLoadingTranscript v) st = st\<lparr>loadingTranscript := v\<rparr>"
| "exec_op (SetFilter v) st = st\<lparr>filter_text := v\<rparr>"
| "exec_op (SetEditingSegment v) st = st\<lparr>editingSegment := v\<rparr>"
| "exec_op (SetEditText v) st = st\<lparr>editText := v\<rparr>"
| "exec_op (SetAvailableThemes v) st = st\<lparr>availableThemes := v\<rparr>"
| "exec_op (SetShowTagging seg v) st = set_local seg (\<lambda>l. l\<lparr>showTagging := v\<rparr>) st"
| "exec_op (SetSelectedSentiment seg v) st = set_local seg (\<lambda>l. l\<lparr>selectedSentiment := v\<rparr>) st"
| "exec_op (SetSelectedTheme seg v) st = set_local seg (\<lambda>l. l\<lparr>selectedTheme := v\<rparr>) st"
| "exec_op (SetNotes seg v) st = set_local seg (\<lambda>l. l\<lparr>notes_input := v\<rparr>) st"
| "exec_op UnmountSegments st = st\<lparr>locals := Map.empty\<rparr>"
| "exec_op (Effect e) st = st"

text \<open>
  The children are rendered only while no transcript is loading and a transcript with
  segments is present; a child that is not rendered is unmounted and loses its state.
\<close>

definition mounted_keys :: "reader \<Rightarrow> string set" where
  "mounted_keys st =
     (if loadingTranscript st then {}
      else case fullTranscript st of None \<Rightarrow> {} | Some d \<Rightarrow> id_seg ` set (segments d))"

definition commit :: "reader \<Rightarrow> reader" where
  "commit st = st\<lparr>locals := (\<lambda>k. if k \<in> mounted_keys st then locals st k else None)\<rparr>"

definition apply_op :: "reader_op \<Rightarrow> reader \<Rightarrow> reader" where
  "apply_op op st = commit (exec_op op st)"

definition run_ops :: "reader_op list \<Rightarrow> reader \<Rightarrow> reader" where
  "run_ops ops st = fold apply_op ops st"

fun effects_of :: "reader_op list \<Rightarrow> effect list" where
  "effects_of [] = []"
| "effects_of (Effect e # ops) = e # effects_of ops"
| "effects_of (_ # ops) = effects_of ops"

fun requests_of :: "effect list \<Rightarrow> request list" where
  "requests_of [] = []"
| "requests_of (Fetch r # es) = r # requests_of es"
| "requests_of (_ # es) = requests_of es"

subsection \<open>Handlers of the widget\<close>

definition isEditable :: "user option \<Rightarrow> bool" where
  "isEditable u =
     (case u of
        None \<Rightarrow> False
      | Some usr \<Rightarrow>
          (case accessLevel usr of
             None \<Rightarrow> False
           | Some lvl \<Rightarrow> js_includes lvl ''Premium'' \<or> js_includes lvl ''Admin''))"

text \<open>The payload of \<open>themes/available\<close> is its \<open>themes\<close> property, which may be absent.\<close>

definition fetchThemes :: "storage \<Rightarrow> string list option fetch_result \<Rightarrow> reader_op list" where
  "fetchThemes sto res =
     (case apiCall sto ''themes/available'' no_options res of
        (effs, Returned (Some data)) \<Rightarrow>
          map Effect effs @ [SetAvailableThemes (case data of None \<Rightarrow> [] | Some ts \<Rightarrow> ts)]
      | (effs, Returned None) \<Rightarrow>
          map Effect effs @ [Effect (ConsoleError ''Error fetching themes:'')]
      | (effs, Thrown e) \<Rightarrow>
          map Effect effs @ [Effect (ConsoleError ''Error fetching themes:'')])"

definition fetchFullTranscript ::
  "storage \<Rightarrow> string option \<Rightarrow> interview_detail fetch_result \<Rightarrow> reader_op list" where
  "fetchFullTranscript sto interviewId res =
     SetLoadingTranscript True #
     (case apiCall sto (''interview/'' @ js_string interviewId) no_options res of
        (effs, Returned data) \<Rightarrow>
          map Effect effs @ [SetFullTranscript data, SetSelectedInterview interviewId]
      | (effs, Thrown e) \<Rightarrow>
          map Effect effs @ [Effect (ConsoleError ''Error fetching full transcript:'')])
     @ [SetLoadingTranscript False]"

definition jv_of :: "string option \<Rightarrow> jv" where
  "jv_of v = (case v of None \<Rightarrow> JNull | Some s \<Rightarrow> JString s)"

definition edit_body :: "string option \<Rightarrow> string \<Rightarrow> string \<Rightarrow> (string \<times> jv) list" where
  "edit_body interview segmentId newText =
     [(''interview_id'', jv_of interview), (''segment_id'', JString segmentId),
      (''edited_text'', JString newText)]"

definition tag_body ::
  "string option \<Rightarrow> string \<Rightarrow> string \<Rightarrow> string \<Rightarrow> string \<Rightarrow> (string \<times> jv) list" where
  "tag_body interview segmentId sentiment theme notes =
     [(''interview_id'', jv_of interview), (''segment_id'', JString segmentId),
      (''sentiment'', JString sentiment), (''theme'', JString theme), (''notes'', JString notes)]"

text \<open>
  \<open>handleEditSegment\<close> and \<open>handleTagSegment\<close>: \<open>r1\<close> is what the POST comes back
  with, \<open>r2\<close> what the re-fetch comes back with, should it be issued. The re-fetch reads
  the token after the effects of the POST.
\<close>

definition handleEditSegment ::
  "user option \<Rightarrow> reader \<Rightarrow> storage \<Rightarrow> string \<Rightarrow> string \<Rightarrow>
   'a fetch_result \<Rightarrow> interview_detail fetch_result \<Rightarrow> reader_op list" where
  "handleEditSegment u st sto segmentId newText r1 r2 =
     (if \<not> isEditable u then []
      else
        (case apiCall sto ''interview/edit''
                (post (edit_body (selectedInterview st) segmentId newText)) r1 of
           (effs, Thrown e) \<Rightarrow>
             map Effect effs @ [Effect (ConsoleError ''Error editing segment:'')]
         | (effs, Returned _) \<Rightarrow>
             map Effect effs
             @ fetchFullTranscript (run_storage effs sto) (selectedInterview st) r2
             @ [SetEditingSegment None]))"

definition handleTagSegment ::
  "user option \<Rightarrow> reader \<Rightarrow> storage \<Rightarrow> string \<Rightarrow> string \<Rightarrow> string \<Rightarrow> string \<Rightarrow>
   'a fetch_result \<Rightarrow> interview_detail fetch_result \<Rightarrow> reader_op list" where
  "handleTagSegment u st sto segmentId sentiment theme notes r1 r2 =
     (if \<not> isEditable u then []
      else
        (case apiCall sto ''interview/tag''
                (post (tag_body (selectedInterview st) segmentId sentiment theme notes)) r1 of
           (effs, Thrown e) \<Rightarrow>
             map Effect effs @ [Effect (ConsoleError ''Error tagging segment:'')]
         | (effs, Returned _) \<Rightarrow>
             map Effect effs
             @ fetchFullTranscript (run_storage effs sto) (selectedInterview st) r2))"

text \<open>
  \<open>handleTagSegment\<close> runs up to its first \<open>await\<close> when it is called, and the rest
  when the POST has settled. Its caller \<open>saveTags\<close> does not await it.
\<close>

definition handleTagSegment_sync ::
  "user option \<Rightarrow> reader \<Rightarrow> storage \<Rightarrow> string \<Rightarrow> string \<Rightarrow> string \<Rightarrow> string \<Rightarrow> reader_op list" where
  "handleTagSegment_sync u st sto segmentId sentiment theme notes =
     (if \<not> isEditable u then []
      else map Effect (apiCall_request sto ''interview/tag''
                         (post (tag_body (selectedInterview st) segmentId sentiment theme notes))))"

definition handleTagSegment_async ::
  "user option \<Rightarrow> reader \<Rightarrow> storage \<Rightarrow> 'a fetch_result \<Rightarrow> interview_detail fetch_result \<Rightarrow>
   reader_op list" where
  "handleTagSegment_async u st sto r1 r2 =
     (if \<not> isEditable u then []
      else
        (case apiCall_response ''interview/tag'' r1 of
           (effs, Thrown e) \<Rightarrow>
             map Effect effs @ [Effect (ConsoleError ''Error tagging segment:'')]
         | (effs, Returned _) \<Rightarrow>
             map Effect effs
             @ fetchFullTranscript (run_storage effs sto) (selectedInterview st) r2))"

subsection \<open>Handlers of a segment\<close>

definition startEdit :: "segment \<Rightarrow> reader_op list" where
  "startEdit seg =
     [SetEditingSegment (Some (id_seg seg)), SetEditText (js_or (edited_text seg) (text_seg seg))]"

definition saveEdit ::
  "user option \<Rightarrow> reader \<Rightarrow> storage \<Rightarrow> segment \<Rightarrow>
   'a fetch_result \<Rightarrow> interview_detail fetch_result \<Rightarrow> reader_op list" where
  "saveEdit u st sto seg r1 r2 = handleEditSegment u st sto (id_seg seg) (editText st) r1 r2"

definition cancelEdit :: "reader_op list" where
  "cancelEdit = [SetEditingSegment None, SetEditText []]"

definition saveTags ::
  "user option \<Rightarrow> reader \<Rightarrow> storage \<Rightarrow> segment \<Rightarrow>
   'a fetch_result \<Rightarrow> interview_detail fetch_result \<Rightarrow> reader_op list" where
  "saveTags u st sto seg r1 r2 =
     (let l = local_state st seg in
      handleTagSegment_sync u st sto (id_seg seg)
        (selectedSentiment l) (selectedTheme l) (notes_input l)
      @ [SetShowTagging seg False]
      @ handleTagSegment_async u st sto r1 r2)"

subsection \<open>What is rendered\<close>

datatype badge = AIBadge | KundeBadge

datatype button = GemButton | AnnullerButton | RedigerButton | TagButton

datatype segment_body = Textarea string | Paragraph string

datatype chip = SentimentChip string | ThemeChip string | NotesChip string

record tagging_panel =
  panel_sentiment :: string
  panel_theme :: string
  panel_notes :: string
  panel_themes :: "string list"

record segment_view =
  badge :: badge
  buttons :: "button list"
  body :: segment_body
  chips :: "chip list"
  panel :: "tagging_panel option"

text \<open>
  The JSX that \<open>SegmentDisplay\<close> returns, from its props and its local state. The prop
  \<open>isEditable\<close> is the one the parent passes, not the parent's constant of that name.
\<close>

definition SegmentDisplay ::
  "segment \<Rightarrow> bool \<Rightarrow> string list \<Rightarrow> string option \<Rightarrow> string \<Rightarrow> segment_local \<Rightarrow> segment_view" where
  "SegmentDisplay seg isEditableProp themes editingSeg editTxt l =
     \<lparr>badge = (if speaker seg = ''AI'' then AIBadge else KundeBadge),
      buttons =
        (if isEditableProp \<and> editable seg then
           (if editingSeg = Some (id_seg seg) then [GemButton, AnnullerButton]
            else [RedigerButton, TagButton])
         else []),
      body =
        (if editingSeg = Some (id_seg seg) then Textarea editTxt
         else Paragraph (js_or (edited_text seg) (text_seg seg))),
      chips =
        (case tags seg of
           None \<Rightarrow> []
         | Some t \<Rightarrow>
             (case tag_sentiment t of None \<Rightarrow> [] | Some v \<Rightarrow> if v = [] then [] else [SentimentChip v])
             @ (case tag_theme t of None \<Rightarrow> [] | Some v \<Rightarrow> if v = [] then [] else [ThemeChip v])
             @ (case tag_notes t of None \<Rightarrow> [] | Some v \<Rightarrow> if v = [] then [] else [NotesChip v])),
      panel =
        (if showTagging l \<and> isEditableProp then
           Some \<lparr>panel_sentiment = selectedSentiment l, panel_theme = selectedTheme l,
                 panel_notes = notes_input l, panel_themes = themes\<rparr>
         else None)\<rparr>"

definition segment_view_of :: "user option \<Rightarrow> reader \<Rightarrow> segment \<Rightarrow> segment_view" where
  "segment_view_of u st seg =
     SegmentDisplay seg (isEditable u \<and> editable seg) (availableThemes st)
       (editingSegment st) (editText st) (local_state st seg)"

text \<open>The transcript column of the widget (the interview list beside it is left out).\<close>

datatype transcript_view =
    Spinner
  | SegmentList "segment_view list"
  | FlatTranscript "string option"
  | Placeholder

definition transcript_panel :: "user option \<Rightarrow> reader \<Rightarrow> transcript_view" where
  "transcript_panel u st =
     (if loadingTranscript st then Spinner
      else case fullTranscript st of
             None \<Rightarrow> Placeholder
           | Some d \<Rightarrow>
               if segments d \<noteq> [] then SegmentList (map (segment_view_of u st) (segments d))
               else FlatTranscript (transcript d))"

definition shown :: "reader \<Rightarrow> segment \<Rightarrow> bool" where
  "shown st seg =
     (\<not> loadingTranscript st \<and>
      (case fullTranscript st of None \<Rightarrow> False | Some d \<Rightarrow> seg \<in> set (segments d)))"

definition is_editing :: "segment_view \<Rightarrow> bool" where
  "is_editing v = (case body v of Textarea t \<Rightarrow> True | Paragraph t \<Rightarrow> False)"

definition is_tagging :: "segment_view \<Rightarrow> bool" where
  "is_tagging v = (panel v \<noteq> None)"

subsection \<open>Events\<close>

text \<open>
  What the user can do in the transcript column, each with the results of the requests it
  causes. An event can happen only when its control is rendered. \<open>SkeletonShown\<close> is the
  dashboard turning its loading flag on, which replaces the widget by a skeleton and
  unmounts the segments. The body of the reply to a POST is never read; it is a unit.
\<close>

datatype event =
    SelectInterview string "interview_detail fetch_result"
  | TypeFilter string
  | ClickRediger segment
  | TypeEditText segment string
  | ClickGem segment "unit fetch_result" "interview_detail fetch_result"
  | ClickAnnuller segment
  | ClickTag segment
  | PickSentiment segment string
  | PickTheme segment string
  | TypeNotes segment string
  | ClickPanelAnnuller segment
  | ClickGemTags segment "unit fetch_result" "interview_detail fetch_result"
  | SkeletonShown

definition has_button :: "user option \<Rightarrow> reader \<Rightarrow> segment \<Rightarrow> button \<Rightarrow> bool" where
  "has_button u st seg b = (shown st seg \<and> b \<in> set (buttons (segment_view_of u st seg)))"

definition has_textarea :: "user option \<Rightarrow> reader \<Rightarrow> segment \<Rightarrow> bool" where
  "has_textarea u st seg = (shown st seg \<and> is_editing (segment_view_of u st seg))"

definition has_panel :: "user option \<Rightarrow> reader \<Rightarrow> segment \<Rightarrow> bool" where
  "has_panel u st seg = (shown st seg \<and> is_tagging (segment_view_of u st seg))"

fun enabled :: "user option \<Rightarrow> reader \<Rightarrow> event \<Rightarrow> bool" where
  "enabled u st (SelectInterview i r) = True"
| "enabled u st (TypeFilter s) = True"
| "enabled u st (ClickRediger seg) = has_button u st seg RedigerButton"
| "enabled u st (TypeEditText seg s) = has_textarea u st seg"
| "enabled u st (ClickGem seg r1 r2) = has_button u st seg GemButton"
| "enabled u st (ClickAnnuller seg) = has_button u st seg AnnullerButton"
| "enabled u st (ClickTag seg) = has_button u st seg TagButton"
| "enabled u st (PickSentiment seg s) = has_panel u st seg"
| "enabled u st (PickTheme seg s) = has_panel u st seg"
| "enabled u st (TypeNotes seg s) = has_panel u st seg"
| "enabled u st (ClickPanelAnnuller seg) = has_panel u st seg"
| "enabled u st (ClickGemTags seg r1 r2) = has_panel u st seg"
| "enabled u st SkeletonShown = True"

fun handler :: "user option \<Rightarrow> reader \<Rightarrow> storage \<Rightarrow> event \<Rightarrow> reader_op list" where
  "handler u st sto (SelectInterview i r) = fetchFullTranscript sto (Some i) r"
| "handler u st sto (TypeFilter s) = [SetFilter s]"
| "handler u st sto (ClickRediger seg) = startEdit seg"
| "handler u st sto (TypeEditText seg s) = [SetEditText s]"
| "handler u st sto (ClickGem seg r1 r2) = saveEdit u st sto seg r1 r2"
| "handler u st sto (ClickAnnuller seg) = cancelEdit"
| "handler u st sto (ClickTag seg) = [SetShowTagging seg (\<not> showTagging (local_state st seg))]"
| "handler u st sto (PickSentiment seg s) = [SetSelectedSentiment seg s]"
| "handler u st sto (PickTheme seg s) = [SetSelectedTheme seg s]"
| "handler u st sto (TypeNotes seg s) = [SetNotes seg s]"
| "handler u st sto (ClickPanelAnnuller seg) = [SetShowTagging seg False]"
| "handler u st sto (ClickGemTags seg r1 r2) = saveTags u st sto seg r1 r2"
| "handler u st sto SkeletonShown = [UnmountSegments]"

record world =
  w_reader :: reader
  w_storage :: storage
  w_trace :: "reader_op list"

definition step :: "user option \<Rightarrow> world \<Rightarrow> event \<Rightarrow> world" where
  "step u w ev =
     (if enabled u (w_reader w) ev then
        (let ops = handler u (w_reader w) (w_storage w) ev in
         \<lparr>w_reader = run_ops ops (w_reader w),
          w_storage = run_storage (effects_of ops) (w_storage w),
          w_trace = w_trace w @ ops\<rparr>)
      else w)"

definition run_events :: "user option \<Rightarrow> world \<Rightarrow> event list \<Rightarrow> world" where
  "run_events u w evs = foldl (step u) w evs"

definition world_init :: "storage \<Rightarrow> world" where
  "world_init sto = \<lparr>w_reader = reader_init, w_storage = sto, w_trace = []\<rparr>"

section \<open>Chat widget\<close>

text \<open>The three \<open>useState\<close> hooks of \<open>ChatWidget\<close>. A content may be \<open>undefined\<close>.\<close>

record message =
  msg_type :: string
  content :: "jsstring option"

record chat =
  messages :: "message list"
  input :: jsstring
  chat_isLoading :: bool




text \<open>
  \<open>AppendMessage m\<close> is \<open>setMessages(prev => [...prev, m])\<close> for a message that
  exists when the setter is called. \<open>AppendAnswer response\<close> is
  \<open>setMessages(prev => [...prev, {type: 'bot', content: response.answer}])\<close>: the
  updater reads \<open>response.answer\<close> when React applies it, not when the setter is called.
\<close>

datatype chat_op =
    AppendMessage message
  | AppendAnswer "jsstring option option"
  | SetInput jsstring
  | SetChatIsLoading bool
  | ChatEffect effect

text \<open>
  Applying an updater to \<open>undefined\<close> throws while the widget renders. Nothing in the
  widget catches that; the error boundary around the dashboard replaces the dashboard,
  and with it the widget, by its failure panel.
\<close>

fun exec_chat :: "chat_op \<Rightarrow> chat \<Rightarrow> js_error + chat" where
  "exec_chat (AppendMessage m) st = Inr (st\<lparr>messages := messages st @ [m]\<rparr>)"
| "exec_chat (AppendAnswer None) st = Inl TypeError"
| "exec_chat (AppendAnswer (Some answer)) st =
     Inr (st\<lparr>messages := messages st @ [\<lparr>msg_type = ''bot'', content = answer\<rparr>]\<rparr>)"
| "exec_chat (SetInput v) st = Inr (st\<lparr>input := v\<rparr>)"
| "exec_chat (SetChatIsLoading v) st = Inr (st\<lparr>chat_isLoading := v\<rparr>)"
| "exec_chat (ChatEffect e) st = Inr st"

fun run_chat :: "chat_op list \<Rightarrow> chat \<Rightarrow> js_error + chat" where
  "run_chat [] st = Inr st"
| "run_chat (op # ops) st =
     (case exec_chat op st of Inl e \<Rightarrow> Inl e | Inr st' \<Rightarrow> run_chat ops st')"

fun chat_effects :: "chat_op list \<Rightarrow> effect list" where
  "chat_effects [] = []"
| "chat_effects (ChatEffect e # ops) = e # chat_effects ops"
| "chat_effects (_ # ops) = chat_effects ops"


section \<open>Top-level coordinator\<close>

record overview_data =
  assistant_name :: "string option"
  total_interviews :: nat
  active_interviews :: nat
  avg_duration :: nat
  trend_percentage :: int
  user_access_level :: "string option"

record theme_data =
  theme_name :: string
  total_mentions :: nat
  positive :: nat
  neutral :: nat
  negative :: nat
  is_new :: bool

record rating =
  label :: "string option"
  average :: nat
  color :: "string option"

record interview_summary =
  summary_id :: string
  summary_supermarket :: "string option"
  summary_transcript :: "string option"

record app =
  isAuthenticated :: bool
  app_user :: "user option"
  overview :: "overview_data option"
  themes :: "theme_data list"
  ratings :: "(string \<times> rating) list"
  interviews :: "interview_summary list"
  selectedAssistant :: string
  isLoading :: bool
  error :: "string option"
  lastUpdated :: "string option"

definition app_init :: app where
  "app_init =
     \<lparr>isAuthenticated = False, app_user = None, overview = None, themes = [], ratings = [],
      interviews = [], selectedAssistant = ''Supermarket int. dansk'', isLoading = True,
      error = None, lastUpdated = None\<rparr>"

datatype app_op =
    SetIsAuthenticated bool
  | SetUser "user option"
  | SetOverview "overview_data option"
  | SetThemes "theme_data list"
  | SetRatings "(string \<times> rating) list"
  | SetInterviews "interview_summary list"
  | SetSelectedAssistant string
  | SetIsLoading bool
  | SetError "string option"
  | SetLastUpdated "string option"
  | AppEffect effect

fun exec_app :: "app_op \<Rightarrow> app \<Rightarrow> app" where
  "exec_app (SetIsAuthenticated v) st = st\<lparr>isAuthenticated := v\<rparr>"
| "exec_app (SetUser v) st = st\<lparr>app_user := v\<rparr>"
| "exec_app (SetOverview v) st = st\<lparr>overview := v\<rparr>"
| "exec_app (SetThemes v) st = st\<lparr>themes := v\<rparr>"
| "exec_app (SetRatings v) st = st\<lparr>ratings := v\<rparr>"
| "exec_app (SetInterviews v) st = st\<lparr>interviews := v\<rparr>"
| "exec_app (SetSelectedAssistant v) st = st\<lparr>selectedAssistant := v\<rparr>"
| "exec_app (SetIsLoading v) st = st\<lparr>isLoading := v\<rparr>"
| "exec_app (SetError v) st = st\<lparr>error := v\<rparr>"
| "exec_app (SetLastUpdated v) st = st\<lparr>lastUpdated := v\<rparr>"
| "exec_app (AppEffect e) st = st"

definition run_app :: "app_op list \<Rightarrow> app \<Rightarrow> app" where
  "run_app ops st = fold exec_app ops st"

fun app_effects :: "app_op list \<Rightarrow> effect list" where
  "app_effects [] = []"
| "app_effects (AppEffect e # ops) = e # app_effects ops"
| "app_effects (_ # ops) = app_effects ops"

text \<open>The effect that runs once when \<open>App\<close> mounts.\<close>

definition App_mount :: "storage \<Rightarrow> app_op list" where
  "App_mount sto =
     (let token = getStoredToken sto; storedUser = getStoredUser sto in
      if truthy token \<and> truthy (email storedUser) then
        [SetIsAuthenticated True, SetUser (Some storedUser), SetIsLoading False]
      else [SetIsLoading False])"

text \<open>A full reload discards the state; \<open>App\<close> starts from its initial state and mounts.\<close>

definition App_after_reload :: "storage \<Rightarrow> app" where
  "App_after_reload sto = run_app (App_mount sto) app_init"

datatype app_view =
    LoadingScreen
  | LandingPageView
  | ErrorScreen string
  | Dashboard "string option"

text \<open>Which of its four screens \<open>App\<close> returns; the dashboard with its error banner.\<close>

definition App_render :: "app \<Rightarrow> app_view" where
  "App_render st =
     (if isLoading st \<and> \<not> isAuthenticated st then LoadingScreen
      else if \<not> isAuthenticated st then LandingPageView
      else if truthy (error st) \<and> overview st = None then ErrorScreen (js_or (error st) [])
      else Dashboard (if truthy (error st) then error st else None))"

definition handleLogout :: "app_op list" where
  "handleLogout =
     map AppEffect clearStoredAuth
     @ [SetIsAuthenticated False, SetUser None, SetOverview None, SetThemes [], SetRatings [],
        SetInterviews []]"

definition dashboard_error :: string where
  "dashboard_error =
     ''Kunne ikke indl'' @ [CHR 0xE6] @ ''se dashboard data. Tjek din internetforbindelse.''"

subsection \<open>The batch of four requests\<close>

text \<open>
  \<open>fetchAllData\<close> calls \<open>apiCall\<close> four times while it builds the array for
  \<open>Promise.all\<close>; each call runs up to its \<open>await fetch\<close>, so the four requests are out
  before anything is awaited.
\<close>

definition fetchAllData_begin :: "bool \<Rightarrow> storage \<Rightarrow> app_op list" where
  "fetchAllData_begin showLoading sto =
     (if showLoading then [SetIsLoading True] else [])
     @ [SetError None, AppEffect (ConsoleLog ''Fetching dashboard data...'')]
     @ map AppEffect
         (apiCall_request sto ''overview'' no_options
          @ apiCall_request sto ''themes'' no_options
          @ apiCall_request sto ''ratings'' no_options
          @ apiCall_request sto ''interviews'' no_options)"

text \<open>
  One of the four requests settling. The payload of \<open>themes\<close>, \<open>ratings\<close> and
  \<open>interviews\<close> is the property of that name, which may be absent.
\<close>

datatype delivery =
    OverviewSettled "overview_data fetch_result"
  | ThemesSettled "theme_data list option fetch_result"
  | RatingsSettled "(string \<times> rating) list option fetch_result"
  | InterviewsSettled "interview_summary list option fetch_result"

fun position :: "delivery \<Rightarrow> nat" where
  "position (OverviewSettled r) = 0"
| "position (ThemesSettled r) = 1"
| "position (RatingsSettled r) = 2"
| "position (InterviewsSettled r) = 3"

datatype 'a slot = Waiting | Got "'a option"

record slots =
  slot_overview :: "overview_data slot"
  slot_themes :: "theme_data list option slot"
  slot_ratings :: "(string \<times> rating) list option slot"
  slot_interviews :: "interview_summary list option slot"

definition no_slots :: slots where
  "no_slots =
     \<lparr>slot_overview = Waiting, slot_themes = Waiting, slot_ratings = Waiting,
      slot_interviews = Waiting\<rparr>"

definition complete :: "slots \<Rightarrow> bool" where
  "complete sl =
     (slot_overview sl \<noteq> Waiting \<and> slot_themes sl \<noteq> Waiting \<and> slot_ratings sl \<noteq> Waiting \<and>
      slot_interviews sl \<noteq> Waiting)"

text \<open>
  \<open>Promise.all\<close>: it rejects with the first rejection among its inputs, it fulfils when
  the last input has fulfilled, and once it has settled nothing changes it.
\<close>

datatype all_state = AllPending slots | AllFulfilled slots | AllRejected js_error

definition promise_all_settle :: "js_error + (slots \<Rightarrow> slots) \<Rightarrow> all_state \<Rightarrow> all_state" where
  "promise_all_settle x s =
     (case s of
        AllPending sl \<Rightarrow>
          (case x of
             Inl e \<Rightarrow> AllRejected e
           | Inr f \<Rightarrow> if complete (f sl) then AllFulfilled (f sl) else AllPending (f sl))
      | AllFulfilled sl \<Rightarrow> s
      | AllRejected e \<Rightarrow> s)"

definition settled_by :: "'a outcome \<Rightarrow> ('a option \<Rightarrow> slots \<Rightarrow> slots) \<Rightarrow> js_error + (slots \<Rightarrow> slots)" where
  "settled_by out put = (case out of Thrown e \<Rightarrow> Inl e | Returned v \<Rightarrow> Inr (put v))"

fun apiCall_settled :: "delivery \<Rightarrow> effect list \<times> (js_error + (slots \<Rightarrow> slots))" where
  "apiCall_settled (OverviewSettled r) =
     (case apiCall_response ''overview'' r of
        (effs, out) \<Rightarrow> (effs, settled_by out (\<lambda>v sl. sl\<lparr>slot_overview := Got v\<rparr>)))"
| "apiCall_settled (ThemesSettled r) =
     (case apiCall_response ''themes'' r of
        (effs, out) \<Rightarrow> (effs, settled_by out (\<lambda>v sl. sl\<lparr>slot_themes := Got v\<rparr>)))"
| "apiCall_settled (RatingsSettled r) =
     (case apiCall_response ''ratings'' r of
        (effs, out) \<Rightarrow> (effs, settled_by out (\<lambda>v sl. sl\<lparr>slot_ratings := Got v\<rparr>)))"
| "apiCall_settled (InterviewsSettled r) =
     (case apiCall_response ''interviews'' r of
        (effs, out) \<Rightarrow> (effs, settled_by out (\<lambda>v sl. sl\<lparr>slot_interviews := Got v\<rparr>)))"

definition fetchAllData_catch :: "app_op list" where
  "fetchAllData_catch =
     [AppEffect (ConsoleError ''Error fetching dashboard data:''), SetError (Some dashboard_error)]"

definition fetchAllData_finally :: "bool \<Rightarrow> app_op list" where
  "fetchAllData_finally showLoading = (if showLoading then [SetIsLoading False] else [])"

text \<open>
  The rest of the \<open>try\<close> block after the \<open>await\<close>, for the four values of the array.
  Reading a property of \<open>undefined\<close> throws into the \<open>catch\<close>; \<open>now\<close> is the clock.
\<close>

definition fetchAllData_then ::
  "string \<Rightarrow> overview_data option \<Rightarrow> theme_data list option option \<Rightarrow>
   (string \<times> rating) list option option \<Rightarrow> interview_summary list option option \<Rightarrow> app_op list" where
  "fetchAllData_then now overviewData themesData ratingsData interviewsData =
     [AppEffect (ConsoleLog ''API responses:''), SetOverview overviewData]
     @ (case themesData of
          None \<Rightarrow> fetchAllData_catch
        | Some t \<Rightarrow>
            SetThemes (case t of None \<Rightarrow> [] | Some v \<Rightarrow> v) #
            (case ratingsData of
               None \<Rightarrow> fetchAllData_catch
             | Some r \<Rightarrow>
                 SetRatings (case r of None \<Rightarrow> [] | Some v \<Rightarrow> v) #
                 (case interviewsData of
                    None \<Rightarrow> fetchAllData_catch
                  | Some i \<Rightarrow>
                      [SetInterviews (case i of None \<Rightarrow> [] | Some v \<Rightarrow> v),
                       SetLastUpdated (Some now),
                       AppEffect (ConsoleLog ''Dashboard data loaded successfully'')])))"

definition value_of :: "'a slot \<Rightarrow> 'a option" where
  "value_of s = (case s of Waiting \<Rightarrow> None | Got v \<Rightarrow> v)"

definition fetchAllData_resume :: "bool \<Rightarrow> string \<Rightarrow> all_state \<Rightarrow> app_op list" where
  "fetchAllData_resume showLoading now s =
     (case s of
        AllPending sl \<Rightarrow> []
      | AllFulfilled sl \<Rightarrow>
          fetchAllData_then now (value_of (slot_overview sl)) (value_of (slot_themes sl))
            (value_of (slot_ratings sl)) (value_of (slot_interviews sl))
          @ fetchAllData_finally showLoading
      | AllRejected e \<Rightarrow> fetchAllData_catch @ fetchAllData_finally showLoading)"

definition is_pending :: "all_state \<Rightarrow> bool" where
  "is_pending s = (case s of AllPending sl \<Rightarrow> True | AllFulfilled sl \<Rightarrow> False | AllRejected e \<Rightarrow> False)"

text \<open>
  One request settles: its \<open>apiCall\<close> finishes, \<open>Promise.all\<close> takes note, and if that
  settles \<open>Promise.all\<close> the rest of \<open>fetchAllData\<close> runs.
\<close>

definition deliver :: "bool \<Rightarrow> string \<Rightarrow> delivery \<Rightarrow> all_state \<times> app_op list \<Rightarrow> all_state \<times> app_op list" where
  "deliver showLoading now d acc =
     (case acc of
        (s, ops) \<Rightarrow>
          (case apiCall_settled d of
             (effs, x) \<Rightarrow>
               (let s' = promise_all_settle x s in
                (s', ops @ map AppEffect effs
                     @ (if is_pending s \<and> \<not> is_pending s' then fetchAllData_resume showLoading now s'
                        else [])))))"

text \<open>\<open>fetchAllData\<close> up to the moment when the requests of \<open>ds\<close> have settled, in that order.\<close>

definition fetchAllData :: "bool \<Rightarrow> string \<Rightarrow> storage \<Rightarrow> delivery list \<Rightarrow> all_state \<times> app_op list" where
  "fetchAllData showLoading now sto ds =
     fold (deliver showLoading now) ds (AllPending no_slots, fetchAllData_begin showLoading sto)"

text \<open>\<open>handleRetry\<close> calls \<open>fetchAllData(true)\<close>.\<close>

definition handleRetry :: "string \<Rightarrow> storage \<Rightarrow> delivery list \<Rightarrow> all_state \<times> app_op list" where
  "handleRetry now sto ds = fetchAllData True now sto ds"

section \<open>Vocabulary of the properties\<close>



text \<open>The setters of the shown transcript and of the selection.\<close>

fun sets_selection :: "reader_op \<Rightarrow> bool" where
  "sets_selection (SetFullTranscript v) = True"
| "sets_selection (SetSelectedInterview v) = True"
| "sets_selection op = False"

text \<open>The operations of a handler that are not state setters.\<close>

fun is_effect :: "reader_op \<Rightarrow> bool" where
  "is_effect (Effect e) = True"
| "is_effect op = False"

text \<open>The data of a response with a status in 200--299 whose body is JSON.\<close>

fun payload :: "'a fetch_result \<Rightarrow> 'a option" where
  "payload (NetworkError msg) = None"
| "payload (Response code statusText errorText parsed) = (if response_ok code then parsed else None)"

text \<open>
  A world in which no segment is being edited and every request issued so far was a GET.
\<close>

definition calm :: "world \<Rightarrow> bool" where
  "calm w \<longleftrightarrow>
     editingSegment (w_reader w) = None
     \<and> list_all (\<lambda>r. req_method r = None) (requests_of (effects_of (w_trace w)))"

text \<open>A result on which \<open>apiCall\<close> throws.\<close>

fun throws :: "'a fetch_result \<Rightarrow> bool" where
  "throws (NetworkError msg) = True"
| "throws (Response code statusText errorText parsed)
     = (code \<noteq> 401 \<and> (\<not> response_ok code \<or> parsed = None))"

text \<open>A request of the batch answered with a 2xx JSON response, and one whose \<open>apiCall\<close> throws.\<close>

fun fulfilled :: "delivery \<Rightarrow> bool" where
  "fulfilled (OverviewSettled r) = (payload r \<noteq> None)"
| "fulfilled (ThemesSettled r) = (payload r \<noteq> None)"
| "fulfilled (RatingsSettled r) = (payload r \<noteq> None)"
| "fulfilled (InterviewsSettled r) = (payload r \<noteq> None)"

fun rejected :: "delivery \<Rightarrow> bool" where
  "rejected (OverviewSettled r) = throws r"
| "rejected (ThemesSettled r) = throws r"
| "rejected (RatingsSettled r) = throws r"
| "rejected (InterviewsSettled r) = throws r"

text \<open>The state setters among the operations of the coordinator.\<close>

fun is_app_effect :: "app_op \<Rightarrow> bool" where
  "is_app_effect (AppEffect e) = True"
| "is_app_effect op = False"

definition app_setters :: "app_op list \<Rightarrow> app_op list" where
  "app_setters ops = filter (\<lambda>op. \<not> is_app_effect op) ops"

text \<open>The slot a fulfilled request fills, and the positions of the filled slots.\<close>

fun fill :: "delivery \<Rightarrow> slots \<Rightarrow> slots" where
  "fill (OverviewSettled r) sl = sl\<lparr>slot_overview := Got (payload r)\<rparr>"
| "fill (ThemesSettled r) sl = sl\<lparr>slot_themes := Got (payload r)\<rparr>"
| "fill (RatingsSettled r) sl = sl\<lparr>slot_ratings := Got (payload r)\<rparr>"
| "fill (InterviewsSettled r) sl = sl\<lparr>slot_interviews := Got (payload r)\<rparr>"

definition filled :: "slots \<Rightarrow> nat set" where
  "filled sl =
     (if slot_overview sl = Waiting then {} else {0})
     \<union> (if slot_themes sl = Waiting then {} else {1})
     \<union> (if slot_ratings sl = Waiting then {} else {2})
     \<union> (if slot_interviews sl = Waiting then {} else {3})"

section \<open>Example data\<close>

definition seg_question :: segment where
  "seg_question =
     \<lparr>id_seg = ''seg-1'', speaker = ''AI'', text_seg = ''Hvordan var dit indkob'',
      edited_text = None, editable = False, tags = None\<rparr>"

definition seg_answer :: segment where
  "seg_answer =
     \<lparr>id_seg = ''seg-2'', speaker = ''customer'', text_seg = ''Det var fint'',
      edited_text = Some ''Bedre end forventet'', editable = True,
      tags = Some \<lparr>tag_sentiment = Some ''positive'', tag_theme = Some ''Service'',
                   tag_notes = None\<rparr>\<rparr>"

definition seg_blank :: segment where
  "seg_blank =
     \<lparr>id_seg = ''seg-3'', speaker = ''customer'', text_seg = ''Hej'',
      edited_text = Some [], editable = True, tags = None\<rparr>"

definition detail_7 :: interview_detail where
  "detail_7 =
     \<lparr>supermarket = ''Netto'', timestamp = ''2025-01-01T10:00:00'', duration = 125,
      status = ''completed'', editable_detail = True,
      segments = [seg_question, seg_answer, seg_blank], transcript = None,
      ratings_detail = None\<rparr>"

definition reader_open :: reader where
  "reader_open = reader_init\<lparr>selectedInterview := Some ''int-7'', fullTranscript := Some detail_7\<rparr>"

definition premium :: "user option" where
  "premium = Some \<lparr>email = Some ''a@b.dk'', accessLevel = Some ''Premium''\<rparr>"

definition standard :: "user option" where
  "standard = Some \<lparr>email = Some ''c@d.dk'', accessLevel = Some ''Standard''\<rparr>"

definition sto_session :: storage where
  "sto_session =
     [''access_token'' \<mapsto> ''tok'', ''user_email'' \<mapsto> ''a@b.dk'', ''access_level'' \<mapsto> ''Premium'']"

definition unauthorized :: "'a fetch_result" where
  "unauthorized = Response 401 ''Unauthorized'' ''token expired'' None"

definition offline :: "'a fetch_result" where
  "offline = NetworkError ''Failed to fetch''"


definition detail_7_edited :: interview_detail where
  "detail_7_edited =
     detail_7\<lparr>segments := [seg_question, seg_answer, seg_blank\<lparr>edited_text := Some ''Bedre end forventet''\<rparr>]\<rparr>"



definition world_open :: world where
  "world_open = \<lparr>w_reader = reader_open, w_storage = sto_session, w_trace = []\<rparr>"

definition world_editing :: world where
  "world_editing =
     \<lparr>w_reader = run_ops (startEdit seg_answer) reader_open, w_storage = sto_session, w_trace = []\<rparr>"

definition standard_session :: "event list" where
  "standard_session =
     [SelectInterview ''int-7'' (Response 200 ''OK'' [] (Some detail_7)),
      ClickRediger seg_answer, ClickTag seg_answer, ClickGem seg_answer offline offline,
      ClickGemTags seg_answer offline offline]"

definition app_loaded :: app where
  "app_loaded =
     app_init\<lparr>isAuthenticated := True,
               app_user := Some \<lparr>email = Some ''a@b.dk'', accessLevel = Some ''Premium''\<rparr>,
               isLoading := False\<rparr>"

definition overview_ok :: "overview_data fetch_result" where
  "overview_ok =
     Response 200 ''OK'' []
       (Some \<lparr>assistant_name = Some ''Supermarket int. dansk'', total_interviews = 12,
              active_interviews = 2, avg_duration = 180, trend_percentage = 5,
              user_access_level = Some ''Premium''\<rparr>)"

definition themes_ok :: "theme_data list option fetch_result" where
  "themes_ok =
     Response 200 ''OK'' []
       (Some (Some [\<lparr>theme_name = ''Service'', total_mentions = 10, positive = 7, neutral = 2,
                      negative = 1, is_new = False\<rparr>]))"

definition ratings_ok :: "(string \<times> rating) list option fetch_result" where
  "ratings_ok = Response 200 ''OK'' [] (Some None)"

definition interviews_ok :: "interview_summary list option fetch_result" where
  "interviews_ok = Response 200 ''OK'' [] (Some (Some []))"

definition batch_in_order :: "delivery list" where
  "batch_in_order =
     [ThemesSettled themes_ok, OverviewSettled overview_ok, InterviewsSettled interviews_ok,
      RatingsSettled ratings_ok]"

definition batch_failing :: "delivery list" where
  "batch_failing = [ThemesSettled themes_ok, RatingsSettled offline, OverviewSettled overview_ok]"

text \<open>A user whose access level is neither \<open>Premium\<close> nor \<open>Admin\<close> but contains one of them.\<close>

definition trial :: "user option" where
  "trial = Some \<lparr>email = Some ''e@f.dk'', accessLevel = Some ''Premium-trial''\<rparr>"

definition trial_session :: "event list" where
  "trial_session =
     [SelectInterview ''int-7'' (Response 200 ''OK'' [] (Some detail_7)),
      ClickRediger seg_answer, ClickGem seg_answer offline offline]"

text \<open>A batch whose \<open>themes\<close> request is answered with 401.\<close>

definition batch_unauthorized :: "delivery list" where
  "batch_unauthorized =
     [OverviewSettled overview_ok, ThemesSettled unauthorized, RatingsSettled ratings_ok,
      InterviewsSettled interviews_ok]"

section \<open>Basic facts\<close>

subsection \<open>Running the operations of a handler\<close>

lemma run_ops_Nil [simp]: "run_ops [] st = st"
  by (simp add: run_ops_def)

lemma run_ops_Cons [simp]: "run_ops (op # ops) st = run_ops ops (apply_op op st)"
  by (simp add: run_ops_def)

lemma run_ops_append [simp]: "run_ops (a @ b) st = run_ops b (run_ops a st)"
  by (simp add: run_ops_def)

lemma commit_fields [simp]:
  "selectedInterview (commit st) = selectedInterview st"
  "fullTranscript (commit st) = fullTranscript st"
  "loadingTranscript (commit st) = loadingTranscript st"
  "filter_text (commit st) = filter_text st"
  "editingSegment (commit st) = editingSegment st"
  "editText (commit st) = editText st"
  "availableThemes (commit st) = availableThemes st"
  by (simp_all add: commit_def)

lemma mounted_keys_locals [simp]: "mounted_keys (st\<lparr>locals := f\<rparr>) = mounted_keys st"
  by (simp add: mounted_keys_def)

lemma mounted_keys_commit [simp]: "mounted_keys (commit st) = mounted_keys st"
  by (simp add: commit_def)

lemma commit_idem [simp]: "commit (commit st) = commit st"
  by (simp add: commit_def fun_eq_iff cong: if_cong)

lemma apply_Effect [simp]: "apply_op (Effect e) st = commit st"
  by (simp add: apply_op_def)

lemma is_editing_view [simp]:
  "is_editing (segment_view_of u st seg) \<longleftrightarrow> editingSegment st = Some (id_seg seg)"
  by (simp add: is_editing_def segment_view_of_def SegmentDisplay_def)

lemma body_view:
  "body (segment_view_of u st seg) =
     (if editingSegment st = Some (id_seg seg) then Textarea (editText st)
      else Paragraph (js_or (edited_text seg) (text_seg seg)))"
  by (simp add: segment_view_of_def SegmentDisplay_def)

lemmas example_defs =
  seg_question_def seg_answer_def seg_blank_def detail_7_def reader_open_def reader_init_def
  premium_def standard_def

subsection \<open>The gateway client\<close>

lemma run_storage_Nil [simp]: "run_storage [] sto = sto"
  by (simp add: run_storage_def)

lemma run_storage_Cons [simp]: "run_storage (e # es) sto = run_storage es (exec_storage e sto)"
  by (simp add: run_storage_def)

lemma run_storage_append [simp]: "run_storage (a @ b) sto = run_storage b (run_storage a sto)"
  by (simp add: run_storage_def)

lemma effects_of_append [simp]: "effects_of (a @ b) = effects_of a @ effects_of b"
  by (induction a rule: effects_of.induct) simp_all

lemma effects_of_map_Effect [simp]: "effects_of (map Effect es) = es"
  by (induction es) simp_all

lemma requests_of_append [simp]: "requests_of (a @ b) = requests_of a @ requests_of b"
  by (induction a rule: requests_of.induct) simp_all

lemma run_ops_map_Effect [simp]: "run_ops (map Effect es) st = (if es = [] then st else commit st)"
  by (induction es arbitrary: st) simp_all

lemma apiCall_request_storage [simp]: "run_storage (apiCall_request sto ep opts) sto' = sto'"
  by (simp add: apiCall_request_def)

lemma apiCall_request_requests [simp]:
  "requests_of (apiCall_request sto ep opts) = [build_request sto ep opts]"
  by (simp add: apiCall_request_def)



lemma apiCall_response_success:
  "response_ok code \<Longrightarrow>
   apiCall_response ep (Response code t b (Some d)) =
     ([ConsoleLog ''API response for'', ConsoleLog ''API data for''], Returned (Some d))"
  by (auto simp: apiCall_response_def response_ok_def)

subsection \<open>Fetching a transcript\<close>

lemma fetchFullTranscript_Thrown:
  assumes "apiCall_response (''interview/'' @ js_string i) res = (effs, Thrown err)"
  shows "fetchFullTranscript sto i res =
           SetLoadingTranscript True # map Effect (apiCall_request sto (''interview/'' @ js_string i) no_options @ effs)
           @ [Effect (ConsoleError ''Error fetching full transcript:''), SetLoadingTranscript False]"
  using assms by (simp add: fetchFullTranscript_def apiCall_def)

lemma fetchFullTranscript_Returned:
  assumes "apiCall_response (''interview/'' @ js_string i) res = (effs, Returned data)"
  shows "fetchFullTranscript sto i res =
           SetLoadingTranscript True # map Effect (apiCall_request sto (''interview/'' @ js_string i) no_options @ effs)
           @ [SetFullTranscript data, SetSelectedInterview i, SetLoadingTranscript False]"
  using assms by (simp add: fetchFullTranscript_def apiCall_def)

lemma sets_selection_Effect [simp]: "filter sets_selection (map Effect es) = []"
  by (induction es) simp_all

lemma apply_op_fields [simp]:
  "selectedInterview (apply_op op st) = selectedInterview (exec_op op st)"
  "fullTranscript (apply_op op st) = fullTranscript (exec_op op st)"
  "loadingTranscript (apply_op op st) = loadingTranscript (exec_op op st)"
  "editingSegment (apply_op op st) = editingSegment (exec_op op st)"
  "editText (apply_op op st) = editText (exec_op op st)"
  by (simp_all add: apply_op_def)

lemma fetchFullTranscript_outcome:
  "(snd (apiCall sto (''interview/'' @ js_string i) no_options res) = Thrown err \<longrightarrow>
      filter sets_selection (fetchFullTranscript sto i res) = []
      \<and> fullTranscript (run_ops (fetchFullTranscript sto i res) st) = fullTranscript st
      \<and> selectedInterview (run_ops (fetchFullTranscript sto i res) st) = selectedInterview st)
   \<and> (snd (apiCall sto (''interview/'' @ js_string i) no_options res) = Returned data \<longrightarrow>
      filter sets_selection (fetchFullTranscript sto i res)
        = [SetFullTranscript data, SetSelectedInterview i]
      \<and> fullTranscript (run_ops (fetchFullTranscript sto i res) st) = data
      \<and> selectedInterview (run_ops (fetchFullTranscript sto i res) st) = i)"
proof (cases "apiCall_response (''interview/'' @ js_string i) res")
  case (Pair effs out)
  show ?thesis
  proof (cases out)
    case (Returned d)
    with Pair show ?thesis
      by (simp add: fetchFullTranscript_Returned [OF Pair [unfolded Returned]] apiCall_def)
  next
    case (Thrown e)
    with Pair show ?thesis
      by (simp add: fetchFullTranscript_Thrown [OF Pair [unfolded Thrown]] apiCall_def)
  qed
qed

lemma apiCall_success:
  "response_ok code \<Longrightarrow>
   apiCall sto ep opts (Response code t b (Some d)) =
     (apiCall_request sto ep opts @ [ConsoleLog ''API response for'', ConsoleLog ''API data for''],
      Returned (Some d))"
  by (simp add: apiCall_def apiCall_response_success)

lemma fetchFullTranscript_requests [simp]:
  "requests_of (effects_of (fetchFullTranscript sto i res))
     = [build_request sto (''interview/'' @ js_string i) no_options]"
proof (cases "apiCall_response (''interview/'' @ js_string i) res")
  case (Pair effs out)
  have "requests_of effs = []"
    using Pair
    by (auto simp: apiCall_response_def clearStoredAuth_def
             split: fetch_result.splits if_splits option.splits)
  then show ?thesis
    using Pair
    by (cases out) (simp_all add: fetchFullTranscript_Returned fetchFullTranscript_Thrown)
qed

lemma filter_sets_selection_append_Effect [simp]:
  "filter sets_selection (map Effect es @ ops) = filter sets_selection ops"
  by simp

lemma run_ops_fullTranscript_fetch:
  "response_ok code \<Longrightarrow>
   fullTranscript (run_ops (fetchFullTranscript sto i (Response code t b (Some d))) st) = Some d"
  using fetchFullTranscript_outcome [of sto i "Response code t b (Some d)" _ st "Some d"]
  by (simp add: apiCall_success)

lemma sets_selection_fetch:
  "response_ok code \<Longrightarrow>
   filter sets_selection (fetchFullTranscript sto i (Response code t b (Some d)))
     = [SetFullTranscript (Some d), SetSelectedInterview i]"
  using fetchFullTranscript_outcome [of sto i "Response code t b (Some d)" _ _ "Some d"]
  by (simp add: apiCall_success)

text \<open>The two halves of \<open>handleTagSegment\<close> make up the whole, also inside \<open>saveTags\<close>.\<close>

lemma handleTagSegment_split:
  "handleTagSegment u st sto segmentId s th n r1 r2 =
     handleTagSegment_sync u st sto segmentId s th n @ handleTagSegment_async u st sto r1 r2"
proof (cases "apiCall_response ''interview/tag'' r1")
  case (Pair effs out)
  then show ?thesis
    by (cases out)
       (simp_all add: handleTagSegment_def handleTagSegment_sync_def handleTagSegment_async_def
          apiCall_def)
qed

lemma saveTags_effects:
  "effects_of (saveTags u st sto seg r1 r2) =
     effects_of (handleTagSegment u st sto (id_seg seg) (selectedSentiment (local_state st seg))
                   (selectedTheme (local_state st seg)) (notes_input (local_state st seg)) r1 r2)"
  by (simp add: saveTags_def handleTagSegment_split Let_def)

subsection \<open>Segments that stay mounted\<close>

lemma local_state_commit:
  "id_seg seg \<in> mounted_keys st \<Longrightarrow> local_state (commit st) seg = local_state st seg"
  by (simp add: local_state_def commit_def)

lemma segment_view_of_commit:
  "id_seg seg \<in> mounted_keys st \<Longrightarrow> segment_view_of u (commit st) seg = segment_view_of u st seg"
  by (simp add: segment_view_of_def local_state_commit)

lemma transcript_panel_commit [simp]: "transcript_panel u (commit st) = transcript_panel u st"
  by (auto simp: transcript_panel_def segment_view_of_commit mounted_keys_def split: option.splits)

lemma filter_not_effect_map [simp]: "filter (\<lambda>op. \<not> is_effect op) (map Effect es) = []"
  by (induction es) simp_all

lemma commit_set_local_commit [simp]:
  "commit (set_local seg f (commit st)) = commit (set_local seg f st)"
  by (simp add: commit_def set_local_def local_state_def fun_eq_iff)

subsection \<open>The chat widget\<close>

lemma run_chat_append:
  "run_chat (a @ b) st = (case run_chat a st of Inl e \<Rightarrow> Inl e | Inr st' \<Rightarrow> run_chat b st')"
  by (induction a arbitrary: st) (simp_all split: sum.splits)

lemma run_chat_effects [simp]: "run_chat (map ChatEffect es @ ops) st = run_chat ops st"
  by (induction es) simp_all

lemma chat_effects_append [simp]: "chat_effects (a @ b) = chat_effects a @ chat_effects b"
  by (induction a rule: chat_effects.induct) simp_all

lemma chat_effects_map [simp]: "chat_effects (map ChatEffect es) = es"
  by (induction es) simp_all

lemma apiCall_response_requests [simp]: "requests_of (fst (apiCall_response ep res)) = []"
  by (auto simp: apiCall_response_def clearStoredAuth_def
           split: fetch_result.splits option.splits)



subsection \<open>The coordinator\<close>

lemma run_app_Nil [simp]: "run_app [] st = st"
  by (simp add: run_app_def)

lemma run_app_Cons [simp]: "run_app (op # ops) st = run_app ops (exec_app op st)"
  by (simp add: run_app_def)

lemma run_app_append [simp]: "run_app (a @ b) st = run_app b (run_app a st)"
  by (simp add: run_app_def)

lemma apiCall_401:
  "apiCall sto endpoint opts (Response 401 statusText errorText parsed)
     = (apiCall_request sto endpoint opts
          @ [ConsoleLog ''API response for''] @ clearStoredAuth @ [Reload],
        Returned None)"
  by (simp add: apiCall_def apiCall_response_def)

lemma run_storage_clearStoredAuth:
  "run_storage clearStoredAuth sto
     = sto(''access_token'' := None, ''user_email'' := None, ''access_level'' := None)"
  by (simp add: clearStoredAuth_def)

lemma logged_out_after_reload:
  "sto ''access_token'' = None \<Longrightarrow> App_render (App_after_reload sto) = LandingPageView"
  by (simp add: App_after_reload_def App_mount_def App_render_def app_init_def
        getStoredToken_def truthy_def)

lemma apiCall_teardown_iff:
  "Reload \<in> set (fst (apiCall sto endpoint opts res)) \<longleftrightarrow> (\<exists>t b p. res = Response 401 t b p)"
  "(\<exists>k. RemoveItem k \<in> set (fst (apiCall sto endpoint opts res)))
     \<longleftrightarrow> (\<exists>t b p. res = Response 401 t b p)"
  by (auto simp: apiCall_def apiCall_response_def apiCall_request_def clearStoredAuth_def
           split: fetch_result.splits option.splits)


lemma result_kinds:
  "payload res \<noteq> None \<or> throws res \<or> (\<exists>t b p. res = Response 401 t b p)"
  by (cases res) auto






subsection \<open>Views and events of the transcript editor\<close>

lemma is_tagging_view:
  "is_tagging (segment_view_of u st seg)
     \<longleftrightarrow> showTagging (local_state st seg) \<and> isEditable u \<and> editable seg"
  by (auto simp: is_tagging_def segment_view_of_def SegmentDisplay_def)

lemma buttons_view:
  "buttons (segment_view_of u st seg) =
     (if isEditable u \<and> editable seg then
        (if editingSegment st = Some (id_seg seg) then [GemButton, AnnullerButton]
         else [RedigerButton, TagButton])
      else [])"
  by (simp add: segment_view_of_def SegmentDisplay_def)

lemma shown_mounted: "shown st seg \<Longrightarrow> id_seg seg \<in> mounted_keys st"
  by (auto simp: shown_def mounted_keys_def split: option.splits)

lemma at_most_one_with_key:
  "distinct (map f xs) \<Longrightarrow> length (filter (\<lambda>x. f x = k) xs) \<le> 1"
proof (induction xs)
  case Nil
  then show ?case by simp
next
  case (Cons x xs)
  show ?case
  proof (cases "f x = k")
    case True
    with Cons.prems have "k \<notin> f ` set xs" by simp
    then have "\<forall>y\<in>set xs. f y \<noteq> k" by blast
    then have "filter (\<lambda>x. f x = k) xs = []" by (simp add: filter_empty_conv)
    with True show ?thesis by simp
  next
    case False
    with Cons show ?thesis by simp
  qed
qed

lemma at_most_one_editing:
  assumes "distinct (map id_seg segs)"
  shows "length (filter is_editing (map (segment_view_of u st) segs)) \<le> 1"
proof (cases "editingSegment st")
  case None
  then have "filter is_editing (map (segment_view_of u st) segs) = []"
    by (simp add: filter_empty_conv)
  then show ?thesis by simp
next
  case (Some k)
  then have "filter is_editing (map (segment_view_of u st) segs)
               = map (segment_view_of u st) (filter (\<lambda>seg. id_seg seg = k) segs)"
    by (induction segs) auto
  with at_most_one_with_key [OF assms, of k] show ?thesis by simp
qed

lemma w_reader_step:
  "enabled u (w_reader w) ev \<Longrightarrow>
   w_reader (step u w ev) = run_ops (handler u (w_reader w) (w_storage w) ev) (w_reader w)"
  by (simp add: step_def Let_def)

lemma local_state_set_local:
  assumes "id_seg a \<in> mounted_keys st"
  shows "local_state (commit (set_local a f st)) b =
           (if id_seg b = id_seg a then f (local_state st a) else local_state (commit st) b)"
  using assms by (simp add: local_state_def commit_def set_local_def)

lemma start_edit_moves_slot:
  assumes "id_seg a \<noteq> id_seg b" and "is_editing (segment_view_of u (w_reader w) a)"
    and "enabled u (w_reader w) (ClickRediger b)"
  shows "is_editing (segment_view_of u (w_reader (step u w (ClickRediger b))) b)
         \<and> \<not> is_editing (segment_view_of u (w_reader (step u w (ClickRediger b))) a)"
  using assms by (simp add: w_reader_step startEdit_def)

lemma two_panels_open:
  assumes "isEditable u" and "shown (w_reader w) a" and "shown (w_reader w) b"
    and "editable a" and "editable b" and "id_seg a \<noteq> id_seg b"
    and "editingSegment (w_reader w) = None"
    and "\<not> is_tagging (segment_view_of u (w_reader w) a)"
    and "\<not> is_tagging (segment_view_of u (w_reader w) b)"
  shows "is_tagging (segment_view_of u (w_reader (run_events u w [ClickTag a, ClickTag b])) a)
         \<and> is_tagging (segment_view_of u (w_reader (run_events u w [ClickTag a, ClickTag b])) b)"
proof -
  let ?st = "w_reader w"
  have ka: "id_seg a \<in> mounted_keys ?st" and kb: "id_seg b \<in> mounted_keys ?st"
    using assms(2,3) by (simp_all add: shown_mounted)
  have ea: "enabled u ?st (ClickTag a)"
    using assms by (simp add: has_button_def buttons_view)
  let ?w1 = "step u w (ClickTag a)"
  have st1: "w_reader ?w1 = commit (set_local a (\<lambda>l. l\<lparr>showTagging := True\<rparr>) ?st)"
    using ea assms by (simp add: w_reader_step apply_op_def is_tagging_view)
  have sh1: "shown (w_reader ?w1) b"
    using assms(3) by (simp add: st1 shown_def set_local_def)
  have eb: "enabled u (w_reader ?w1) (ClickTag b)"
    using sh1 assms by (simp add: has_button_def buttons_view st1 set_local_def)
  have lb: "\<not> showTagging (local_state (w_reader ?w1) b)"
    using assms ka kb by (simp add: st1 local_state_set_local local_state_commit is_tagging_view)
  have k1: "id_seg b \<in> mounted_keys (w_reader ?w1)" "id_seg a \<in> mounted_keys (w_reader ?w1)"
    using ka kb by (simp_all add: st1 set_local_def)
  have st2: "w_reader (step u ?w1 (ClickTag b))
               = commit (set_local b (\<lambda>l. l\<lparr>showTagging := True\<rparr>) (w_reader ?w1))"
    using eb lb by (simp add: w_reader_step apply_op_def)
  have "showTagging (local_state (w_reader (step u ?w1 (ClickTag b))) b)"
    using k1 by (simp add: st2 local_state_set_local)
  moreover have "showTagging (local_state (w_reader (step u ?w1 (ClickTag b))) a)"
    using k1 ka assms(6)
    by (simp add: st2 local_state_set_local) (simp add: st1 local_state_set_local)
  ultimately show ?thesis
    using assms by (simp add: run_events_def is_tagging_view)
qed

lemma editingSegment_fetchFullTranscript [simp]:
  "editingSegment (run_ops (fetchFullTranscript sto i res) st) = editingSegment st"
proof (cases "apiCall_response (''interview/'' @ js_string i) res")
  case (Pair effs out)
  then show ?thesis
    by (cases out) (simp_all add: fetchFullTranscript_Returned fetchFullTranscript_Thrown)
qed

lemma editingSegment_set_local [simp]:
  "editingSegment (set_local seg f st) = editingSegment st"
  by (simp add: set_local_def)

lemma calm_step:
  assumes "\<not> isEditable u" and "calm w"
  shows "calm (step u w ev)"
proof (cases "enabled u (w_reader w) ev")
  case False
  with assms(2) show ?thesis by (simp add: step_def)
next
  case True
  have none: "editingSegment (w_reader w) = None"
    using assms(2) by (simp add: calm_def)
  show ?thesis
  proof (cases ev)
    case (SelectInterview i r)
    with assms show ?thesis
      by (simp add: calm_def step_def Let_def build_request_def no_options_def)
  next
    case (TypeEditText seg s)
    with True none show ?thesis
      by (simp add: has_textarea_def)
  qed (use assms True none in
        \<open>simp_all add: calm_def step_def Let_def has_button_def has_panel_def buttons_view
           is_tagging_view\<close>)
qed

lemma calm_run:
  assumes "\<not> isEditable u" and "calm w"
  shows "calm (run_events u w evs)"
  using assms(2)
proof (induction evs arbitrary: w)
  case Nil
  then show ?case by (simp add: run_events_def)
next
  case (Cons ev evs)
  from calm_step [OF assms(1) Cons.prems] Cons.IH [of "step u w ev"]
  show ?case by (simp add: run_events_def)
qed

lemma calm_init: "calm (world_init sto)"
  by (simp add: calm_def world_init_def reader_init_def)

subsection \<open>The batch of four requests\<close>

lemma app_setters_simps [simp]:
  "app_setters [] = []"
  "app_setters (a @ b) = app_setters a @ app_setters b"
  "app_setters (AppEffect e # ops) = app_setters ops"
  by (simp_all add: app_setters_def)

lemma app_setters_map [simp]: "app_setters (map AppEffect es) = []"
  by (induction es) simp_all

lemma run_app_setters: "run_app ops st = run_app (app_setters ops) st"
proof (induction ops arbitrary: st)
  case Nil
  then show ?case by simp
next
  case (Cons op ops)
  then show ?case by (cases op) (simp_all add: app_setters_def)
qed

lemma app_effects_append [simp]: "app_effects (a @ b) = app_effects a @ app_effects b"
  by (induction a rule: app_effects.induct) simp_all

lemma app_effects_map [simp]: "app_effects (map AppEffect es) = es"
  by (induction es) simp_all

lemma response_fulfilled:
  "payload r = Some v \<Longrightarrow>
   apiCall_response ep r
     = ([ConsoleLog ''API response for'', ConsoleLog ''API data for''], Returned (Some v))"
  by (cases r) (auto simp: apiCall_response_def response_ok_def split: if_splits)

lemma response_throws:
  "throws r \<Longrightarrow> \<exists>effs e. apiCall_response ep r = (effs, Thrown e) \<and> requests_of effs = []"
  by (cases r) (auto simp: apiCall_response_def)

lemma settled_fulfilled:
  "fulfilled d \<Longrightarrow>
   apiCall_settled d = ([ConsoleLog ''API response for'', ConsoleLog ''API data for''], Inr (fill d))"
  by (cases d) (auto simp: response_fulfilled settled_by_def fun_eq_iff)

lemma settled_rejected:
  "rejected d \<Longrightarrow> \<exists>effs e. apiCall_settled d = (effs, Inl e)"
proof (cases d)
  case (OverviewSettled r)
  assume "rejected d"
  with OverviewSettled response_throws [of r "''overview''"] show ?thesis
    by (auto simp: settled_by_def)
next
  case (ThemesSettled r)
  assume "rejected d"
  with ThemesSettled response_throws [of r "''themes''"] show ?thesis
    by (auto simp: settled_by_def)
next
  case (RatingsSettled r)
  assume "rejected d"
  with RatingsSettled response_throws [of r "''ratings''"] show ?thesis
    by (auto simp: settled_by_def)
next
  case (InterviewsSettled r)
  assume "rejected d"
  with InterviewsSettled response_throws [of r "''interviews''"] show ?thesis
    by (auto simp: settled_by_def)
qed

lemma settled_requests [simp]: "requests_of (fst (apiCall_settled d)) = []"
  by (cases d) (simp_all split: prod.splits,
      (metis apiCall_response_requests fst_conv)+)

lemma fetchAllData_append:
  "fetchAllData sl now sto (a @ b) = fold (deliver sl now) b (fetchAllData sl now sto a)"
  by (simp add: fetchAllData_def)

lemma fetchAllData_Nil: "fetchAllData sl now sto [] = (AllPending no_slots, fetchAllData_begin sl sto)"
  by (simp add: fetchAllData_def)

lemma position_range: "position d \<in> {0, 1, 2, 3}"
  by (cases d) simp_all

lemma filled_fill: "filled (fill d sl) = insert (position d) (filled sl)"
  by (cases d) (auto simp: filled_def)

lemma filled_fold: "filled (fold fill ds sl) = filled sl \<union> position ` set ds"
  by (induction ds arbitrary: sl) (auto simp: filled_fill)

lemma filled_no_slots [simp]: "filled no_slots = {}"
  by (simp add: filled_def no_slots_def)

lemma filled_mem:
  "0 \<in> filled sl \<longleftrightarrow> slot_overview sl \<noteq> Waiting"
  "Suc 0 \<in> filled sl \<longleftrightarrow> slot_themes sl \<noteq> Waiting"
  "2 \<in> filled sl \<longleftrightarrow> slot_ratings sl \<noteq> Waiting"
  "3 \<in> filled sl \<longleftrightarrow> slot_interviews sl \<noteq> Waiting"
  by (simp_all add: filled_def)

lemma complete_filled: "complete sl \<longleftrightarrow> {0, 1, 2, 3} \<subseteq> filled sl"
  by (simp add: complete_def filled_mem)

lemma card_positions: "distinct (map position ds) \<Longrightarrow> card (position ` set ds) = length ds"
  using distinct_card [of "map position ds"] by simp

lemma not_complete:
  assumes "distinct (map position ds)" and "length ds < 4"
  shows "\<not> complete (fold fill ds no_slots)"
proof
  assume "complete (fold fill ds no_slots)"
  then have "{0, 1, 2, 3} \<subseteq> position ` set ds"
    by (simp add: complete_filled filled_fold)
  then have "card {0, 1, 2, 3 :: nat} \<le> card (position ` set ds)"
    by (intro card_mono) simp_all
  with assms show False by (simp add: card_positions)
qed

lemma all_complete:
  assumes "distinct (map position ds)" and "length ds = 4"
  shows "complete (fold fill ds no_slots)"
proof -
  have "position ` set ds \<subseteq> {0, 1, 2, 3}"
    by (rule image_subsetI) (rule position_range)
  moreover have "card (position ` set ds) = card {0, 1, 2, 3 :: nat}"
    using assms by (simp add: card_positions)
  ultimately have "position ` set ds = {0, 1, 2, 3}"
    by (intro card_subset_eq) simp_all
  then show ?thesis
    by (simp add: complete_filled filled_fold)
qed

lemma at_most_four: "distinct (map position ds) \<Longrightarrow> length ds \<le> 4"
proof -
  assume d: "distinct (map position ds)"
  have "position ` set ds \<subseteq> {0, 1, 2, 3}"
    by (rule image_subsetI) (rule position_range)
  then have "card (position ` set ds) \<le> card {0, 1, 2, 3 :: nat}"
    by (intro card_mono) simp_all
  with d show ?thesis by (simp add: card_positions)
qed

text \<open>While fewer than four requests have settled, all fulfilled, the batch is pending.\<close>

lemma pending_phase:
  assumes "distinct (map position ds)" and "list_all fulfilled ds" and "length ds < 4"
  shows "fetchAllData sl now sto ds =
           (AllPending (fold fill ds no_slots),
            fetchAllData_begin sl sto @ map AppEffect (concat (map (\<lambda>d. fst (apiCall_settled d)) ds)))"
  using assms
proof (induction ds rule: rev_induct)
  case Nil
  then show ?case by (simp add: fetchAllData_Nil)
next
  case (snoc d ds)
  then have IH: "fetchAllData sl now sto ds =
           (AllPending (fold fill ds no_slots),
            fetchAllData_begin sl sto @ map AppEffect (concat (map (\<lambda>d. fst (apiCall_settled d)) ds)))"
    by simp
  from snoc.prems have f: "fulfilled d" by simp
  have nc: "\<not> complete (fill d (fold fill ds no_slots))"
    using not_complete [OF snoc.prems(1) snoc.prems(3)] by simp
  show ?case
    using nc
    by (simp add: fetchAllData_append IH deliver_def settled_fulfilled [OF f]
          promise_all_settle_def is_pending_def)
qed

lemma slot_untouched:
  "0 \<notin> position ` set ds \<Longrightarrow> slot_overview (fold fill ds sl) = slot_overview sl"
  "Suc 0 \<notin> position ` set ds \<Longrightarrow> slot_themes (fold fill ds sl) = slot_themes sl"
  "2 \<notin> position ` set ds \<Longrightarrow> slot_ratings (fold fill ds sl) = slot_ratings sl"
  "3 \<notin> position ` set ds \<Longrightarrow> slot_interviews (fold fill ds sl) = slot_interviews sl"
proof (induction ds arbitrary: sl)
  case Nil
  { case 1 show ?case by simp }
  { case 2 show ?case by simp }
  { case 3 show ?case by simp }
  { case 4 show ?case by simp }
next
  case (Cons d ds)
  { case 1 with Cons.IH(1) [of "fill d sl"] show ?case by (cases d) auto }
  { case 2 with Cons.IH(2) [of "fill d sl"] show ?case by (cases d) auto }
  { case 3 with Cons.IH(3) [of "fill d sl"] show ?case by (cases d) auto }
  { case 4 with Cons.IH(4) [of "fill d sl"] show ?case by (cases d) auto }
qed

lemma slot_value:
  assumes "distinct (map position ds)"
  shows "OverviewSettled ro \<in> set ds \<Longrightarrow> slot_overview (fold fill ds sl) = Got (payload ro)"
    and "ThemesSettled rt \<in> set ds \<Longrightarrow> slot_themes (fold fill ds sl) = Got (payload rt)"
    and "RatingsSettled rr \<in> set ds \<Longrightarrow> slot_ratings (fold fill ds sl) = Got (payload rr)"
    and "InterviewsSettled ri \<in> set ds \<Longrightarrow> slot_interviews (fold fill ds sl) = Got (payload ri)"
  using assms
proof (induction ds arbitrary: sl)
  case Nil
  { case 1 then show ?case by simp }
  { case 2 then show ?case by simp }
  { case 3 then show ?case by simp }
  { case 4 then show ?case by simp }
next
  case (Cons d ds)
  { case 1
    show ?case
    proof (cases "d = OverviewSettled ro")
      case True
      with 1 show ?thesis by (simp add: slot_untouched)
    next
      case False
      with 1 Cons.IH(1) [of "fill d sl"] show ?thesis by simp
    qed }
  { case 2
    show ?case
    proof (cases "d = ThemesSettled rt")
      case True
      with 2 show ?thesis by (simp add: slot_untouched)
    next
      case False
      with 2 Cons.IH(2) [of "fill d sl"] show ?thesis by simp
    qed }
  { case 3
    show ?case
    proof (cases "d = RatingsSettled rr")
      case True
      with 3 show ?thesis by (simp add: slot_untouched)
    next
      case False
      with 3 Cons.IH(3) [of "fill d sl"] show ?thesis by simp
    qed }
  { case 4
    show ?case
    proof (cases "d = InterviewsSettled ri")
      case True
      with 4 show ?thesis by (simp add: slot_untouched)
    next
      case False
      with 4 Cons.IH(4) [of "fill d sl"] show ?thesis by simp
    qed }
qed

lemma completion:
  assumes "distinct (map position ds)" and "list_all fulfilled ds" and "length ds = 4"
  shows "fetchAllData sl now sto ds =
           (AllFulfilled (fold fill ds no_slots),
            fetchAllData_begin sl sto
            @ map AppEffect (concat (map (\<lambda>d. fst (apiCall_settled d)) ds))
            @ fetchAllData_resume sl now (AllFulfilled (fold fill ds no_slots)))"
proof (cases ds rule: rev_cases)
  case Nil
  with assms(3) show ?thesis by simp
next
  case (snoc ds' d)
  with assms have p: "distinct (map position ds')" "list_all fulfilled ds'" "length ds' < 4"
    and f: "fulfilled d"
    by simp_all
  have c: "complete (fill d (fold fill ds' no_slots))"
    using all_complete [OF assms(1) assms(3)] snoc by simp
  show ?thesis
    using c
    by (simp add: snoc fetchAllData_append pending_phase [OF p] deliver_def
          settled_fulfilled [OF f] promise_all_settle_def is_pending_def Let_def)
qed

lemma settled_stays:
  "\<not> is_pending s \<Longrightarrow>
   fold (deliver sl now) ds (s, ops)
     = (s, ops @ map AppEffect (concat (map (\<lambda>d. fst (apiCall_settled d)) ds)))"
proof (induction ds arbitrary: ops)
  case Nil
  then show ?case by simp
next
  case (Cons d ds)
  obtain effs x where d: "apiCall_settled d = (effs, x)"
    by (cases "apiCall_settled d")
  from Cons.prems have "promise_all_settle x s = s"
    by (cases s) (simp_all add: promise_all_settle_def is_pending_def)
  with Cons d show ?case
    by (simp add: deliver_def)
qed

lemma app_setters_Cons [simp]:
  "\<not> is_app_effect op \<Longrightarrow> app_setters (op # ops) = op # app_setters ops"
  by (simp add: app_setters_def)

lemma app_setters_finally [simp]:
  "app_setters (fetchAllData_finally sl) = fetchAllData_finally sl"
  by (simp add: fetchAllData_finally_def)

lemma rejection:
  assumes "distinct (map position (ds1 @ d # ds2))" and "list_all fulfilled ds1" and "rejected d"
  shows "\<exists>e. fst (fetchAllData sl now sto (ds1 @ d # ds2)) = AllRejected e
           \<and> app_setters (snd (fetchAllData sl now sto (ds1 @ d # ds2)))
               = app_setters (fetchAllData_begin sl sto) @ [SetError (Some dashboard_error)]
                 @ fetchAllData_finally sl"
proof -
  from assms(1) have d1: "distinct (map position ds1)" by simp
  from assms(1) have "distinct (map position (ds1 @ [d]))" by simp
  then have "length (ds1 @ [d]) \<le> 4" by (rule at_most_four)
  then have l1: "length ds1 < 4" by simp
  obtain effs e where r: "apiCall_settled d = (effs, Inl e)"
    using settled_rejected [OF assms(3)] by blast
  have step: "fetchAllData sl now sto (ds1 @ [d]) =
      (AllRejected e,
       fetchAllData_begin sl sto @ map AppEffect (concat (map (\<lambda>d. fst (apiCall_settled d)) ds1))
       @ map AppEffect effs @ fetchAllData_catch @ fetchAllData_finally sl)"
    by (simp add: fetchAllData_append pending_phase [OF d1 assms(2) l1] deliver_def r
          promise_all_settle_def is_pending_def fetchAllData_resume_def)
  have "fetchAllData sl now sto (ds1 @ d # ds2)
          = fold (deliver sl now) ds2 (fetchAllData sl now sto (ds1 @ [d]))"
    using fetchAllData_append [of sl now sto "ds1 @ [d]" ds2] by simp
  then show ?thesis
    by (simp add: step settled_stays is_pending_def fetchAllData_catch_def)
qed

lemma resume_requests [simp]: "requests_of (app_effects (fetchAllData_resume sl now s)) = []"
  by (cases s)
     (simp_all add: fetchAllData_resume_def fetchAllData_then_def fetchAllData_catch_def
        fetchAllData_finally_def split: option.splits)

lemma deliver_requests:
  "requests_of (app_effects (snd (fold (deliver sl now) ds acc))) = requests_of (app_effects (snd acc))"
proof (induction ds arbitrary: acc)
  case Nil
  then show ?case by simp
next
  case (Cons d ds)
  obtain s ops where acc: "acc = (s, ops)" by (cases acc)
  obtain effs x where d: "apiCall_settled d = (effs, x)" by (cases "apiCall_settled d")
  have "requests_of effs = []"
    using settled_requests [of d] d by simp
  then have "requests_of (app_effects (snd (deliver sl now d acc))) = requests_of (app_effects ops)"
    by (simp add: deliver_def acc d Let_def)
  with Cons.IH [of "deliver sl now d acc"] show ?case
    by (simp add: acc)
qed

lemma begin_requests:
  "requests_of (app_effects (fetchAllData_begin sl sto))
     = [build_request sto ''overview'' no_options, build_request sto ''themes'' no_options,
        build_request sto ''ratings'' no_options, build_request sto ''interviews'' no_options]"
  by (simp add: fetchAllData_begin_def apiCall_request_def)

lemma begin_setters:
  "app_setters (fetchAllData_begin sl sto) = (if sl then [SetIsLoading True] else []) @ [SetError None]"
  by (simp add: fetchAllData_begin_def app_setters_def)

lemma w_storage_step:
  "enabled u (w_reader w) ev \<Longrightarrow>
   w_storage (step u w ev)
     = run_storage (effects_of (handler u (w_reader w) (w_storage w) ev)) (w_storage w)"
  by (simp add: step_def Let_def)

lemma w_trace_step:
  "enabled u (w_reader w) ev \<Longrightarrow>
   w_trace (step u w ev) = w_trace w @ handler u (w_reader w) (w_storage w) ev"
  by (simp add: step_def Let_def)

section \<open>Displayed text of a segment\<close>

text \<open>
  Claim C1, as the code has it: every segment of the rendered transcript that is not being
  edited shows its \<open>edited_text\<close> when that is present and not the empty string, and its
  original \<open>text\<close> otherwise. What is shown is one of the two, never a combination.
\<close>

theorem displayed_text_truthy_override:
  assumes "transcript_panel u st = SegmentList vs" and "fullTranscript st = Some d"
    and "i < length vs" and "\<not> is_editing (vs ! i)"
  shows "body (vs ! i) =
           Paragraph (case edited_text (segments d ! i) of
                        None \<Rightarrow> text_seg (segments d ! i)
                      | Some e \<Rightarrow> if e = [] then text_seg (segments d ! i) else e)"
proof -
  from assms(1,2) have vs: "vs = map (segment_view_of u st) (segments d)"
    by (simp add: transcript_panel_def split: if_splits)
  with assms(3) have i: "i < length (segments d)" by simp
  with vs assms(4) have "editingSegment st \<noteq> Some (id_seg (segments d ! i))"
    by simp
  with vs i show ?thesis
    by (simp add: segment_view_of_def SegmentDisplay_def js_or_def)
qed

theorem displayed_text_truthy_override_witness:
  "transcript_panel standard reader_open
     = SegmentList (map (segment_view_of standard reader_open) (segments detail_7))
   \<and> fullTranscript reader_open = Some detail_7
   \<and> \<not> is_editing (map (segment_view_of standard reader_open) (segments detail_7) ! 1)
   \<and> body (map (segment_view_of standard reader_open) (segments detail_7) ! 1)
       = Paragraph ''Bedre end forventet''"
  using displayed_text_truthy_override
          [of standard reader_open "map (segment_view_of standard reader_open) (segments detail_7)"
              detail_7 1]
  by (simp add: transcript_panel_def example_defs)

text \<open>
  Claim C1 as it is written, with presence alone deciding, fails: the third segment of the
  example transcript has an \<open>edited_text\<close> that is present and empty, and its original
  text is shown.
\<close>

theorem displayed_text_counterexample:
  "transcript_panel standard reader_open
     = SegmentList (map (segment_view_of standard reader_open) [seg_question, seg_answer, seg_blank])
   \<and> edited_text seg_blank = Some []
   \<and> \<not> is_editing (segment_view_of standard reader_open seg_blank)
   \<and> body (segment_view_of standard reader_open seg_blank) = Paragraph ''Hej''
   \<and> Paragraph ''Hej'' \<noteq> Paragraph []"
  by (simp add: transcript_panel_def body_view js_or_def example_defs)

text \<open>
  Claim C8: a segment whose \<open>edited_text\<close> is present and empty shows its original text
  while it is not being edited, and \<open>startEdit\<close> on it makes it the segment being edited
  with the original text in the edit buffer, which the text area then shows.
\<close>

theorem empty_override_ignored:
  assumes "edited_text seg = Some []"
  shows "(\<not> is_editing (segment_view_of u st seg) \<longrightarrow>
            body (segment_view_of u st seg) = Paragraph (text_seg seg))
         \<and> editingSegment (run_ops (startEdit seg) st) = Some (id_seg seg)
         \<and> editText (run_ops (startEdit seg) st) = text_seg seg
         \<and> body (segment_view_of u (run_ops (startEdit seg) st) seg) = Textarea (text_seg seg)"
  using assms
  by (simp add: body_view js_or_def startEdit_def apply_op_def)

theorem empty_override_ignored_witness:
  "edited_text seg_blank = Some []
   \<and> \<not> is_editing (segment_view_of premium reader_open seg_blank)
   \<and> body (segment_view_of premium reader_open seg_blank) = Paragraph ''Hej''
   \<and> editText (run_ops (startEdit seg_blank) reader_open) = ''Hej''
   \<and> body (segment_view_of premium (run_ops (startEdit seg_blank) reader_open) seg_blank)
       = Textarea ''Hej''"
  using empty_override_ignored [of seg_blank premium reader_open]
  by (simp add: example_defs)

section \<open>Selecting an interview\<close>

text \<open>
  Claim C9, as the code has it: when the \<open>apiCall\<close> in \<open>fetchFullTranscript\<close> throws
  (network failure, a status outside 200--299 other than 401, or a body that is not JSON),
  no setter of the shown transcript or of the selection is called and both are as before;
  when it returns, the only such setters called are \<open>setFullTranscript\<close> and then
  \<open>setSelectedInterview\<close>, with what was returned and the requested identifier.
\<close>

theorem select_interview_atomic:
  "(snd (apiCall sto (''interview/'' @ js_string i) no_options res) = Thrown err \<longrightarrow>
      filter sets_selection (fetchFullTranscript sto i res) = []
      \<and> fullTranscript (run_ops (fetchFullTranscript sto i res) st) = fullTranscript st
      \<and> selectedInterview (run_ops (fetchFullTranscript sto i res) st) = selectedInterview st)
   \<and> (snd (apiCall sto (''interview/'' @ js_string i) no_options res) = Returned data \<longrightarrow>
      filter sets_selection (fetchFullTranscript sto i res)
        = [SetFullTranscript data, SetSelectedInterview i]
      \<and> fullTranscript (run_ops (fetchFullTranscript sto i res) st) = data
      \<and> selectedInterview (run_ops (fetchFullTranscript sto i res) st) = i)"
  by (rule fetchFullTranscript_outcome)

text \<open>
  Claim C9 as it is written fails for a request that is answered with 401: \<open>apiCall\<close>
  returns \<open>undefined\<close> without throwing, so the shown transcript becomes absent and the
  selection switches to the requested interview.
\<close>

theorem select_interview_counterexample:
  "fullTranscript reader_open = Some detail_7
   \<and> selectedInterview reader_open = Some ''int-7''
   \<and> fullTranscript (run_ops (fetchFullTranscript sto_session (Some ''int-8'') unauthorized) reader_open) = None
   \<and> selectedInterview (run_ops (fetchFullTranscript sto_session (Some ''int-8'') unauthorized) reader_open)
       = Some ''int-8''"
  by (simp add: fetchFullTranscript_def apiCall_def apiCall_request_def apiCall_response_def
        unauthorized_def clearStoredAuth_def reader_open_def reader_init_def)

theorem select_interview_atomic_witness:
  "snd (apiCall sto_session (''interview/'' @ js_string (Some ''int-8'')) no_options
          (offline :: interview_detail fetch_result)) = Thrown (NetworkFailure ''Failed to fetch'')
   \<and> fullTranscript (run_ops (fetchFullTranscript sto_session (Some ''int-8'') offline) reader_open)
       = Some detail_7
   \<and> selectedInterview (run_ops (fetchFullTranscript sto_session (Some ''int-8'') offline) reader_open)
       = Some ''int-7''
   \<and> snd (apiCall sto_session (''interview/'' @ js_string (Some ''int-7'')) no_options
            (Response 200 ''OK'' [] (Some detail_7_edited))) = Returned (Some detail_7_edited)
   \<and> filter sets_selection
        (fetchFullTranscript sto_session (Some ''int-7'') (Response 200 ''OK'' [] (Some detail_7_edited)))
       = [SetFullTranscript (Some detail_7_edited), SetSelectedInterview (Some ''int-7'')]"
  using select_interview_atomic
          [of sto_session "Some ''int-8''" offline "NetworkFailure ''Failed to fetch''" reader_open]
        select_interview_atomic
          [of sto_session "Some ''int-7''" "Response 200 ''OK'' [] (Some detail_7_edited)" _ _
              "Some detail_7_edited"]
  by (simp add: apiCall_def apiCall_response_def offline_def response_ok_def reader_open_def
        reader_init_def)

section \<open>Re-fetch after a save\<close>

text \<open>
  Claim C5: for a user who may edit, a save whose POST is answered with a 2xx JSON
  response issues exactly two requests, the POST and then one GET of
  \<open>interview/{selectedInterview}\<close>; when that GET is answered with a 2xx detail, the only
  writes to the shown transcript and the selection are that detail and the unchanged
  selection, and the transcript shown afterwards is exactly the returned detail.
\<close>

theorem save_refetches_detail_once:
  assumes "isEditable u" and "response_ok code"
  shows
    "requests_of (effects_of
        (handleEditSegment u st sto segmentId newText (Response code t b (Some reply)) r2))
       = [build_request sto ''interview/edit''
            (post (edit_body (selectedInterview st) segmentId newText)),
          build_request sto (''interview/'' @ js_string (selectedInterview st)) no_options]
     \<and> requests_of (effects_of
        (handleTagSegment u st sto segmentId s th n (Response code t b (Some reply)) r2))
       = [build_request sto ''interview/tag''
            (post (tag_body (selectedInterview st) segmentId s th n)),
          build_request sto (''interview/'' @ js_string (selectedInterview st)) no_options]
     \<and> (\<forall>code2 t2 b2 d. r2 = Response code2 t2 b2 (Some d) \<and> response_ok code2 \<longrightarrow>
          filter sets_selection
            (handleEditSegment u st sto segmentId newText (Response code t b (Some reply)) r2)
            = [SetFullTranscript (Some d), SetSelectedInterview (selectedInterview st)]
          \<and> fullTranscript
              (run_ops (handleEditSegment u st sto segmentId newText
                          (Response code t b (Some reply)) r2) st) = Some d
          \<and> filter sets_selection
              (handleTagSegment u st sto segmentId s th n (Response code t b (Some reply)) r2)
            = [SetFullTranscript (Some d), SetSelectedInterview (selectedInterview st)]
          \<and> fullTranscript
              (run_ops (handleTagSegment u st sto segmentId s th n
                          (Response code t b (Some reply)) r2) st) = Some d)"
  using assms
  by (simp add: handleEditSegment_def handleTagSegment_def apiCall_success
        run_ops_fullTranscript_fetch sets_selection_fetch)

theorem save_refetches_detail_once_witness:
  "isEditable premium \<and> response_ok 200
   \<and> requests_of (effects_of
        (handleEditSegment premium reader_open sto_session ''seg-3'' ''Bedre end forventet''
           (Response 200 ''OK'' [] (Some ())) (Response 200 ''OK'' [] (Some detail_7_edited))))
       = [\<lparr>req_endpoint = ''interview/edit'', req_method = Some ''POST'',
           req_body = Some [(''interview_id'', JString ''int-7''), (''segment_id'', JString ''seg-3''),
                            (''edited_text'', JString ''Bedre end forventet'')],
           req_headers = [(''Content-Type'', ''application/json''), (''Authorization'', ''Bearer tok'')]\<rparr>,
          \<lparr>req_endpoint = ''interview/int-7'', req_method = None, req_body = None,
           req_headers = [(''Content-Type'', ''application/json''), (''Authorization'', ''Bearer tok'')]\<rparr>]
   \<and> fullTranscript
        (run_ops (handleEditSegment premium reader_open sto_session ''seg-3'' ''Bedre end forventet''
                    (Response 200 ''OK'' [] (Some ())) (Response 200 ''OK'' [] (Some detail_7_edited)))
           reader_open) = Some detail_7_edited"
  using save_refetches_detail_once
          [of premium 200 reader_open sto_session "''seg-3''" "''Bedre end forventet''" "''OK''" "[]" "()"
              "Response 200 ''OK'' [] (Some detail_7_edited)"]
  by (simp add: premium_def isEditable_def response_ok_def build_request_def getStoredToken_def
        sto_session_def spread_def post_def no_options_def edit_body_def jv_of_def js_string_def
        reader_open_def reader_init_def)

section \<open>A save that fails\<close>




section \<open>Unauthorized responses\<close>

text \<open>
  Claim C4: for every endpoint, options and session store, \<open>apiCall\<close> on a response with
  status 401 issues its request, logs, removes the three session keys, reloads and returns
  \<open>undefined\<close>, with no await between the removals and the reload; the store afterwards
  has none of the three keys and is otherwise as before, and the application that starts
  after the reload shows the landing page. \<open>apiCall\<close> reloads, and removes a key, for a
  401 and for no other result, whatever the call site.
\<close>

theorem unauthorized_clears_session:
  "apiCall sto endpoint opts (Response 401 statusText errorText parsed)
     = (apiCall_request sto endpoint opts
          @ [ConsoleLog ''API response for''] @ clearStoredAuth @ [Reload],
        Returned None)
   \<and> run_storage (fst (apiCall sto endpoint opts (Response 401 statusText errorText parsed))) sto
       = sto(''access_token'' := None, ''user_email'' := None, ''access_level'' := None)
   \<and> App_render
        (App_after_reload
           (run_storage (fst (apiCall sto endpoint opts (Response 401 statusText errorText parsed))) sto))
       = LandingPageView
   \<and> (Reload \<in> set (fst (apiCall sto endpoint opts res))
        \<longleftrightarrow> (\<exists>t b p. res = Response 401 t b p))
   \<and> ((\<exists>k. RemoveItem k \<in> set (fst (apiCall sto endpoint opts res)))
        \<longleftrightarrow> (\<exists>t b p. res = Response 401 t b p))"
  by (simp add: apiCall_401 run_storage_clearStoredAuth logged_out_after_reload
        apiCall_teardown_iff)

theorem unauthorized_clears_session_witness:
  "run_storage (fst (apiCall sto_session ''overview'' no_options
                       (unauthorized :: overview_data fetch_result))) sto_session = Map.empty
   \<and> Reload \<in> set (fst (apiCall sto_session ''overview'' no_options
                           (unauthorized :: overview_data fetch_result)))
   \<and> App_render (App_after_reload Map.empty) = LandingPageView
   \<and> App_render (App_after_reload sto_session) = Dashboard None"
proof -
  have "sto_session(''access_token'' := None, ''user_email'' := None, ''access_level'' := None)
          = Map.empty"
    by (simp add: sto_session_def)
  moreover have "App_render (App_after_reload sto_session) = Dashboard None"
    by (simp add: App_after_reload_def App_mount_def App_render_def app_init_def
          getStoredToken_def getStoredUser_def truthy_def sto_session_def)
  ultimately show ?thesis
    using unauthorized_clears_session
            [of sto_session "''overview''" no_options "''Unauthorized''" "''token expired''"
                "None :: overview_data option" "unauthorized :: overview_data fetch_result"]
    unfolding unauthorized_def by metis
qed

section \<open>Sending a chat message\<close>




section \<open>The edit slot and the tagging panels\<close>

text \<open>
  Claim C2: the segment being edited is the one whose identifier is in the single slot
  \<open>editingSegment\<close> of the widget, so in every state of a transcript whose segments
  have distinct identifiers at most one segment is rendered in Editing state; clicking
  Rediger on a segment while another one is being edited puts the clicked segment in
  Editing state and takes the other one out of it; and the tagging panels are local to
  the segments: for a user who may edit, clicking Tag on two editable segments that are
  shown opens the panel of both.
\<close>

theorem single_edit_slot:
  "(fullTranscript st = Some d \<and> distinct (map id_seg (segments d)) \<longrightarrow>
      length (filter is_editing (map (segment_view_of u st) (segments d))) \<le> 1)
   \<and> (id_seg a \<noteq> id_seg b \<and> is_editing (segment_view_of u (w_reader w) a)
        \<and> enabled u (w_reader w) (ClickRediger b) \<longrightarrow>
      is_editing (segment_view_of u (w_reader (step u w (ClickRediger b))) b)
      \<and> \<not> is_editing (segment_view_of u (w_reader (step u w (ClickRediger b))) a))
   \<and> (isEditable u \<and> shown (w_reader w) a \<and> shown (w_reader w) b \<and> editable a \<and> editable b
        \<and> id_seg a \<noteq> id_seg b \<and> editingSegment (w_reader w) = None
        \<and> \<not> is_tagging (segment_view_of u (w_reader w) a)
        \<and> \<not> is_tagging (segment_view_of u (w_reader w) b) \<longrightarrow>
      is_tagging (segment_view_of u (w_reader (run_events u w [ClickTag a, ClickTag b])) a)
      \<and> is_tagging (segment_view_of u (w_reader (run_events u w [ClickTag a, ClickTag b])) b))"
  using at_most_one_editing [of "segments d" u st] start_edit_moves_slot [of a b u w]
    two_panels_open [of u w a b]
  by blast

theorem single_edit_slot_witness:
  "fullTranscript (w_reader world_editing) = Some detail_7
   \<and> distinct (map id_seg (segments detail_7))
   \<and> length (filter is_editing
               (map (segment_view_of premium (w_reader world_editing)) (segments detail_7))) \<le> 1
   \<and> is_editing (segment_view_of premium (w_reader world_editing) seg_answer)
   \<and> enabled premium (w_reader world_editing) (ClickRediger seg_blank)
   \<and> is_editing
        (segment_view_of premium (w_reader (step premium world_editing (ClickRediger seg_blank)))
           seg_blank)
   \<and> \<not> is_editing
          (segment_view_of premium (w_reader (step premium world_editing (ClickRediger seg_blank)))
             seg_answer)
   \<and> is_tagging
        (segment_view_of premium
           (w_reader (run_events premium world_open [ClickTag seg_answer, ClickTag seg_blank]))
           seg_answer)
   \<and> is_tagging
        (segment_view_of premium
           (w_reader (run_events premium world_open [ClickTag seg_answer, ClickTag seg_blank]))
           seg_blank)"
proof -
  have 1: "fullTranscript (w_reader world_editing) = Some detail_7"
    and 2: "distinct (map id_seg (segments detail_7))"
    and 3: "id_seg seg_answer \<noteq> id_seg seg_blank"
    and 4: "is_editing (segment_view_of premium (w_reader world_editing) seg_answer)"
    and 5: "enabled premium (w_reader world_editing) (ClickRediger seg_blank)"
    by (simp_all add: world_editing_def startEdit_def apply_op_def has_button_def shown_def
          buttons_view isEditable_def example_defs)
  have 6: "isEditable premium" "shown (w_reader world_open) seg_answer"
    "shown (w_reader world_open) seg_blank" "editable seg_answer" "editable seg_blank"
    "editingSegment (w_reader world_open) = None"
    "\<not> is_tagging (segment_view_of premium (w_reader world_open) seg_answer)"
    "\<not> is_tagging (segment_view_of premium (w_reader world_open) seg_blank)"
    by (simp_all add: world_open_def shown_def is_tagging_view local_state_def
          segment_local_init_def isEditable_def example_defs)
  show ?thesis
    using single_edit_slot [of "w_reader world_editing" detail_7 premium seg_answer seg_blank
                              world_editing]
      single_edit_slot [of "w_reader world_open" detail_7 premium seg_answer seg_blank world_open]
      1 2 3 4 5 6
    by blast
qed

section \<open>Users who may not edit\<close>

text \<open>
  Claim C3, as the code has it: for a user whose access level is absent or contains
  neither \<open>Premium\<close> nor \<open>Admin\<close> as a substring, whatever the user does from the
  moment the widget mounts, no segment, editable or not, is rendered in Editing or Tagging
  state or with edit and tag buttons, and every request issued is a GET; the tagging
  panel is not rendered in any state at all; and \<open>handleEditSegment\<close>,
  \<open>handleTagSegment\<close>, \<open>saveEdit\<close> and \<open>saveTags\<close> issue no request and have no other
  effect on the environment.
\<close>

theorem unprivileged_never_edits:
  assumes "\<not> isEditable u"
  shows "\<not> is_editing (segment_view_of u (w_reader (run_events u (world_init sto) evs)) seg)
     \<and> \<not> is_tagging (segment_view_of u (w_reader (run_events u (world_init sto) evs)) seg)
     \<and> buttons (segment_view_of u (w_reader (run_events u (world_init sto) evs)) seg) = []
     \<and> list_all (\<lambda>r. req_method r = None)
         (requests_of (effects_of (w_trace (run_events u (world_init sto) evs))))
     \<and> \<not> is_tagging (segment_view_of u st seg)
     \<and> handleEditSegment u st sto segmentId newText r1 r2 = []
     \<and> handleTagSegment u st sto segmentId s th n r1 r2 = []
     \<and> effects_of (saveEdit u st sto seg r1 r2) = []
     \<and> effects_of (saveTags u st sto seg r1 r2) = []"
  using calm_run [OF assms calm_init, of sto evs] assms
  by (simp add: calm_def is_tagging_view buttons_view handleEditSegment_def handleTagSegment_def
        saveEdit_def saveTags_def handleTagSegment_sync_def handleTagSegment_async_def)

theorem unprivileged_never_edits_witness:
  "\<not> isEditable standard \<and> editable seg_answer
   \<and> shown (w_reader (run_events standard (world_init sto_session) standard_session)) seg_answer
   \<and> \<not> is_editing
          (segment_view_of standard
             (w_reader (run_events standard (world_init sto_session) standard_session)) seg_answer)
   \<and> \<not> is_tagging
          (segment_view_of standard
             (w_reader (run_events standard (world_init sto_session) standard_session)) seg_answer)
   \<and> requests_of (effects_of (w_trace (run_events standard (world_init sto_session) standard_session)))
       = [\<lparr>req_endpoint = ''interview/int-7'', req_method = None, req_body = None,
           req_headers = [(''Content-Type'', ''application/json''), (''Authorization'', ''Bearer tok'')]\<rparr>]
   \<and> handleEditSegment standard reader_open sto_session ''seg-2'' ''Ny tekst''
         (offline :: unit fetch_result) offline = []"
proof -
  have u: "\<not> isEditable standard"
    by (simp add: isEditable_def standard_def)
  have run: "run_events standard (world_init sto_session) standard_session
      = step standard (world_init sto_session)
          (SelectInterview ''int-7'' (Response 200 ''OK'' [] (Some detail_7)))"
    using u
    by (simp add: run_events_def standard_session_def step_def Let_def has_button_def
          has_panel_def buttons_view is_tagging_view)
  have "shown (w_reader (run_events standard (world_init sto_session) standard_session)) seg_answer"
    unfolding run
    by (simp add: step_def Let_def world_init_def fetchFullTranscript_def apiCall_def
          apiCall_request_def apiCall_response_def response_ok_def apply_op_def shown_def
          detail_7_def)
  moreover have
    "requests_of (effects_of (w_trace (run_events standard (world_init sto_session) standard_session)))
       = [\<lparr>req_endpoint = ''interview/int-7'', req_method = None, req_body = None,
           req_headers = [(''Content-Type'', ''application/json''), (''Authorization'', ''Bearer tok'')]\<rparr>]"
    unfolding run
    by (simp add: step_def Let_def world_init_def build_request_def no_options_def
          getStoredToken_def sto_session_def spread_def js_string_def)
  moreover have "editable seg_answer"
    by (simp add: seg_answer_def)
  ultimately show ?thesis
    using u unprivileged_never_edits
              [OF u, of sto_session standard_session seg_answer reader_open "''seg-2''" "''Ny tekst''"
                  "offline :: unit fetch_result" offline]
    by simp
qed

text \<open>
  Claim C3 as it is written fails for an access level that is neither \<open>Premium\<close> nor
  \<open>Admin\<close> but contains one of them: \<open>isEditable\<close> tests \<open>includes\<close>, so a user of
  level \<open>Premium-trial\<close> who selects an interview and clicks the edit button of an
  editable segment puts it in Editing state, and the save button issues the POST.
\<close>

theorem unprivileged_counterexample:
  "trial = Some \<lparr>email = Some ''e@f.dk'', accessLevel = Some ''Premium-trial''\<rparr>
   \<and> ''Premium-trial'' \<noteq> ''Premium'' \<and> ''Premium-trial'' \<noteq> ''Admin''
   \<and> editable seg_answer
   \<and> is_editing
        (segment_view_of trial
           (w_reader (run_events trial (world_init sto_session) (take 2 trial_session))) seg_answer)
   \<and> map req_endpoint
        (requests_of (effects_of (w_trace (run_events trial (world_init sto_session) trial_session))))
       = [''interview/int-7'', ''interview/edit'']
   \<and> map req_method
        (requests_of (effects_of (w_trace (run_events trial (world_init sto_session) trial_session))))
       = [None, Some ''POST'']"
proof -
  have u: "isEditable trial"
    by (simp add: isEditable_def trial_def)
  let ?w1 = "step trial (world_init sto_session)
               (SelectInterview ''int-7'' (Response 200 ''OK'' [] (Some detail_7)))"
  have r1: "w_reader ?w1 = reader_open"
    by (simp add: step_def Let_def world_init_def fetchFullTranscript_def apiCall_def
          apiCall_request_def apiCall_response_def response_ok_def apply_op_def commit_def
          mounted_keys_def fun_eq_iff reader_open_def reader_init_def)
  have s1: "w_storage ?w1 = sto_session"
    by (simp add: step_def Let_def world_init_def fetchFullTranscript_def apiCall_def
          apiCall_request_def apiCall_response_def response_ok_def)
  have t1: "map req_endpoint (requests_of (effects_of (w_trace ?w1))) = [''interview/int-7'']"
    "map req_method (requests_of (effects_of (w_trace ?w1))) = [None]"
    by (simp_all add: step_def Let_def world_init_def build_request_def no_options_def
          js_string_def)
  have e2: "enabled trial (w_reader ?w1) (ClickRediger seg_answer)"
    unfolding r1 using u
    by (simp add: has_button_def buttons_view shown_def reader_open_def reader_init_def
          detail_7_def seg_answer_def)
  let ?w2 = "step trial ?w1 (ClickRediger seg_answer)"
  have r2: "w_reader ?w2 = run_ops (startEdit seg_answer) reader_open"
    using e2 by (simp add: w_reader_step r1)
  have s2: "w_storage ?w2 = sto_session" and t2: "effects_of (w_trace ?w2) = effects_of (w_trace ?w1)"
    using e2 by (simp_all add: w_storage_step w_trace_step s1 startEdit_def)
  have ed: "editingSegment (w_reader ?w2) = Some (id_seg seg_answer)"
    unfolding r2 by (simp add: startEdit_def)
  have sh: "shown (w_reader ?w2) seg_answer"
    unfolding r2
    by (simp add: startEdit_def shown_def apply_op_def reader_open_def reader_init_def
          detail_7_def)
  have e3: "enabled trial (w_reader ?w2) (ClickGem seg_answer offline offline)"
    using u ed sh by (simp add: has_button_def buttons_view seg_answer_def)
  let ?w3 = "step trial ?w2 (ClickGem seg_answer offline offline)"
  have t3: "requests_of (effects_of (w_trace ?w3))
      = requests_of (effects_of (w_trace ?w1))
        @ [build_request sto_session ''interview/edit''
             (post (edit_body (selectedInterview (w_reader ?w2)) (id_seg seg_answer)
                      (editText (w_reader ?w2))))]"
    using e3 u
    by (simp add: w_trace_step t2 s2 saveEdit_def handleEditSegment_def
          apiCall_def apiCall_request_def apiCall_response_def offline_def)
  have run2: "run_events trial (world_init sto_session) (take 2 trial_session) = ?w2"
    by (simp add: run_events_def trial_session_def)
  have run3: "run_events trial (world_init sto_session) trial_session = ?w3"
    by (simp add: run_events_def trial_session_def)
  show ?thesis
    unfolding run2 run3
    using ed t1
    by (simp add: t3 build_request_def post_def)
       (simp add: trial_def seg_answer_def)
qed

section \<open>The dashboard batch\<close>

text \<open>
  Claim C6, as the code has it, for requests that are answered with a 2xx JSON response
  or on which the gateway client throws. The four requests (overview, themes, ratings,
  interviews) are issued at the start, whatever settles later, and nothing issues another
  request. While fewer than four have settled, each with a 2xx JSON response, the batch
  is pending and no state setter has been called beyond the ones at the start. When all
  four have settled so, in any order, the four results and the time are stored together.
  As soon as a request throws, after any number of requests answered with a 2xx JSON
  response, the batch has failed: no result is stored, the error message is set and the
  loading flag cleared, the requests that settle later change nothing, and an
  authenticated application shows the error message, on the error screen or as the banner
  of the dashboard. \<open>handleRetry\<close> runs the same batch with the loading flag.
\<close>

theorem batch_all_or_nothing:
  assumes "distinct (map position ds)"
  shows
    "requests_of (app_effects (snd (fetchAllData showLoading now sto ds)))
       = [build_request sto ''overview'' no_options, build_request sto ''themes'' no_options,
          build_request sto ''ratings'' no_options, build_request sto ''interviews'' no_options]
     \<and> (list_all fulfilled ds \<and> length ds < 4 \<longrightarrow>
          is_pending (fst (fetchAllData showLoading now sto ds))
          \<and> app_setters (snd (fetchAllData showLoading now sto ds))
              = (if showLoading then [SetIsLoading True] else []) @ [SetError None])
     \<and> (list_all fulfilled ds \<and> OverviewSettled ro \<in> set ds \<and> ThemesSettled rt \<in> set ds
          \<and> RatingsSettled rr \<in> set ds \<and> InterviewsSettled ri \<in> set ds \<longrightarrow>
          app_setters (snd (fetchAllData showLoading now sto ds))
            = (if showLoading then [SetIsLoading True] else []) @ [SetError None]
              @ [SetOverview (payload ro),
                 SetThemes (case payload rt of Some (Some v) \<Rightarrow> v | _ \<Rightarrow> []),
                 SetRatings (case payload rr of Some (Some v) \<Rightarrow> v | _ \<Rightarrow> []),
                 SetInterviews (case payload ri of Some (Some v) \<Rightarrow> v | _ \<Rightarrow> []),
                 SetLastUpdated (Some now)]
              @ (if showLoading then [SetIsLoading False] else []))
     \<and> (\<forall>ds1 d ds2. ds = ds1 @ d # ds2 \<and> list_all fulfilled ds1 \<and> rejected d \<longrightarrow>
          \<not> is_pending (fst (fetchAllData showLoading now sto (ds1 @ [d])))
          \<and> app_setters (snd (fetchAllData showLoading now sto (ds1 @ [d])))
              = app_setters (snd (fetchAllData showLoading now sto ds))
          \<and> app_setters (snd (fetchAllData showLoading now sto ds))
              = (if showLoading then [SetIsLoading True] else []) @ [SetError None]
                @ [SetError (Some dashboard_error)]
                @ (if showLoading then [SetIsLoading False] else [])
          \<and> (isAuthenticated st \<longrightarrow>
               App_render (run_app (snd (fetchAllData showLoading now sto ds)) st)
                 = (if overview st = None then ErrorScreen dashboard_error
                    else Dashboard (Some dashboard_error))))
     \<and> handleRetry now sto ds = fetchAllData True now sto ds"
proof -
  have A: "requests_of (app_effects (snd (fetchAllData showLoading now sto ds)))
       = [build_request sto ''overview'' no_options, build_request sto ''themes'' no_options,
          build_request sto ''ratings'' no_options, build_request sto ''interviews'' no_options]"
    by (simp add: fetchAllData_def deliver_requests begin_requests)
  have B: "is_pending (fst (fetchAllData showLoading now sto ds))
          \<and> app_setters (snd (fetchAllData showLoading now sto ds))
              = (if showLoading then [SetIsLoading True] else []) @ [SetError None]"
    if "list_all fulfilled ds" "length ds < 4"
    using pending_phase [OF assms that] by (simp add: is_pending_def begin_setters)
  have C: "app_setters (snd (fetchAllData showLoading now sto ds))
            = (if showLoading then [SetIsLoading True] else []) @ [SetError None]
              @ [SetOverview (payload ro),
                 SetThemes (case payload rt of Some (Some v) \<Rightarrow> v | _ \<Rightarrow> []),
                 SetRatings (case payload rr of Some (Some v) \<Rightarrow> v | _ \<Rightarrow> []),
                 SetInterviews (case payload ri of Some (Some v) \<Rightarrow> v | _ \<Rightarrow> []),
                 SetLastUpdated (Some now)]
              @ (if showLoading then [SetIsLoading False] else [])"
    if f: "list_all fulfilled ds" and m: "OverviewSettled ro \<in> set ds" "ThemesSettled rt \<in> set ds"
      "RatingsSettled rr \<in> set ds" "InterviewsSettled ri \<in> set ds"
  proof -
    have "{0, 1, 2, 3} \<subseteq> position ` set ds"
      using m by force
    then have "card {0, 1, 2, 3 :: nat} \<le> card (position ` set ds)"
      by (intro card_mono) simp_all
    with at_most_four [OF assms] have len: "length ds = 4"
      using card_positions [OF assms] by simp
    from f m have p: "payload rt \<noteq> None" "payload rr \<noteq> None" "payload ri \<noteq> None"
      by (auto simp: list_all_iff)
    show ?thesis
      using p
      by (auto simp: completion [OF assms f len] begin_setters fetchAllData_resume_def
            fetchAllData_then_def fetchAllData_finally_def slot_value(1) [OF assms m(1)]
            slot_value(2) [OF assms m(2)] slot_value(3) [OF assms m(3)]
            slot_value(4) [OF assms m(4)]
            value_of_def split: option.splits)
  qed
  have D: "\<not> is_pending (fst (fetchAllData showLoading now sto (ds1 @ [d])))
          \<and> app_setters (snd (fetchAllData showLoading now sto (ds1 @ [d])))
              = app_setters (snd (fetchAllData showLoading now sto ds))
          \<and> app_setters (snd (fetchAllData showLoading now sto ds))
              = (if showLoading then [SetIsLoading True] else []) @ [SetError None]
                @ [SetError (Some dashboard_error)]
                @ (if showLoading then [SetIsLoading False] else [])
          \<and> (isAuthenticated st \<longrightarrow>
               App_render (run_app (snd (fetchAllData showLoading now sto ds)) st)
                 = (if overview st = None then ErrorScreen dashboard_error
                    else Dashboard (Some dashboard_error)))"
    if ds: "ds = ds1 @ d # ds2" and f: "list_all fulfilled ds1" and r: "rejected d"
    for ds1 d ds2
  proof -
    from assms ds have d1: "distinct (map position (ds1 @ d # ds2))"
      and d2: "distinct (map position (ds1 @ d # []))"
      by simp_all
    note R = rejection [OF d1 f r, of showLoading now sto, folded ds]
    note R1 = rejection [OF d2 f r, of showLoading now sto]
    have render: "App_render (run_app (snd (fetchAllData showLoading now sto ds)) st)
                 = (if overview st = None then ErrorScreen dashboard_error
                    else Dashboard (Some dashboard_error))"
      if "isAuthenticated st"
      using R that
      by (subst run_app_setters)
         (auto simp: begin_setters fetchAllData_finally_def App_render_def truthy_def js_or_def
            dashboard_error_def)
    from R R1 render show ?thesis
      by (auto simp: begin_setters fetchAllData_finally_def is_pending_def)
  qed
  show ?thesis
    using A B C D by (simp add: handleRetry_def)
qed

theorem batch_all_or_nothing_witness:
  "distinct (map position batch_in_order)
   \<and> app_setters (snd (fetchAllData True ''10:00:00'' sto_session batch_in_order))
       = [SetIsLoading True, SetError None,
          SetOverview (payload overview_ok),
          SetThemes [\<lparr>theme_name = ''Service'', total_mentions = 10, positive = 7, neutral = 2,
                       negative = 1, is_new = False\<rparr>],
          SetRatings [], SetInterviews [], SetLastUpdated (Some ''10:00:00''),
          SetIsLoading False]
   \<and> is_pending (fst (fetchAllData True ''10:00:00'' sto_session [ThemesSettled themes_ok]))
   \<and> distinct (map position batch_failing)
   \<and> app_setters (snd (fetchAllData True ''10:00:00'' sto_session batch_failing))
       = [SetIsLoading True, SetError None, SetError (Some dashboard_error), SetIsLoading False]"
proof -
  have ok: "payload overview_ok \<noteq> None" "payload themes_ok \<noteq> None" "payload ratings_ok \<noteq> None"
    "payload interviews_ok \<noteq> None"
    by (simp_all add: overview_ok_def themes_ok_def ratings_ok_def interviews_ok_def
          response_ok_def)
  have d1: "distinct (map position batch_in_order)"
    by (simp add: batch_in_order_def)
  have d2: "distinct (map position [ThemesSettled themes_ok])"
    by simp
  have d3: "distinct (map position batch_failing)"
    by (simp add: batch_failing_def)
  have 1: "app_setters (snd (fetchAllData True ''10:00:00'' sto_session batch_in_order))
       = [SetIsLoading True, SetError None,
          SetOverview (payload overview_ok),
          SetThemes [\<lparr>theme_name = ''Service'', total_mentions = 10, positive = 7, neutral = 2,
                       negative = 1, is_new = False\<rparr>],
          SetRatings [], SetInterviews [], SetLastUpdated (Some ''10:00:00''),
          SetIsLoading False]"
    using batch_all_or_nothing
            [OF d1, of True "''10:00:00''" sto_session overview_ok themes_ok ratings_ok interviews_ok]
      ok
    by (simp add: batch_in_order_def)
       (simp add: themes_ok_def ratings_ok_def interviews_ok_def response_ok_def)
  have 2: "is_pending (fst (fetchAllData True ''10:00:00'' sto_session [ThemesSettled themes_ok]))"
    using batch_all_or_nothing [OF d2, of True "''10:00:00''" sto_session] ok
    by simp
  have "batch_failing = [ThemesSettled themes_ok] @ RatingsSettled offline # [OverviewSettled overview_ok]
      \<and> list_all fulfilled [ThemesSettled themes_ok] \<and> rejected (RatingsSettled offline)"
    using ok by (simp add: batch_failing_def offline_def)
  with batch_all_or_nothing [OF d3, of True "''10:00:00''" sto_session]
  have 3: "app_setters (snd (fetchAllData True ''10:00:00'' sto_session batch_failing))
       = [SetIsLoading True, SetError None, SetError (Some dashboard_error), SetIsLoading False]"
    by (metis (no_types, lifting) append_Cons append_Nil)
  from d1 1 2 d3 3 show ?thesis by simp
qed

text \<open>
  Claim C6 as it is written fails twice. The batch does not wait for all four requests
  before it fails: when the overview request is the first to settle and it fails by the
  network, \<open>Promise.all\<close> rejects at once, and with three requests still in flight
  the error is set, the loading flag is cleared and the error screen is shown. And a
  partial result is rendered: when the themes request is answered with 401 and the other
  three with data, the gateway client returns \<open>undefined\<close> for it, \<open>Promise.all\<close>
  fulfils, \<open>setOverview\<close> stores the overview, reading \<open>themesData.themes\<close> throws, and
  the dashboard is shown with the new overview, no themes, no update time and the error
  banner.
\<close>

theorem batch_counterexample:
  "length [OverviewSettled offline] = 1
   \<and> fst (fetchAllData True ''10:00:00'' sto_session [OverviewSettled offline])
       = AllRejected (NetworkFailure ''Failed to fetch'')
   \<and> error (run_app (snd (fetchAllData True ''10:00:00'' sto_session [OverviewSettled offline]))
              app_loaded) = Some dashboard_error
   \<and> isLoading (run_app (snd (fetchAllData True ''10:00:00'' sto_session [OverviewSettled offline]))
                 app_loaded) = False
   \<and> App_render (run_app (snd (fetchAllData True ''10:00:00'' sto_session [OverviewSettled offline]))
                  app_loaded) = ErrorScreen dashboard_error
   \<and> map position batch_unauthorized = [0, 1, 2, 3]
   \<and> app_setters (snd (fetchAllData True ''10:00:00'' sto_session batch_unauthorized))
       = [SetIsLoading True, SetError None, SetOverview (payload overview_ok),
          SetError (Some dashboard_error), SetIsLoading False]
   \<and> overview app_loaded = None
   \<and> overview (run_app (snd (fetchAllData True ''10:00:00'' sto_session batch_unauthorized))
                 app_loaded) = payload overview_ok
   \<and> payload overview_ok \<noteq> None
   \<and> themes (run_app (snd (fetchAllData True ''10:00:00'' sto_session batch_unauthorized))
               app_loaded) = []
   \<and> lastUpdated (run_app (snd (fetchAllData True ''10:00:00'' sto_session batch_unauthorized))
               app_loaded) = None
   \<and> App_render (run_app (snd (fetchAllData True ''10:00:00'' sto_session batch_unauthorized))
                  app_loaded) = Dashboard (Some dashboard_error)"
  by (simp add: fetchAllData_def deliver_def apiCall_response_def offline_def settled_by_def
        promise_all_settle_def is_pending_def fetchAllData_resume_def fetchAllData_catch_def
        fetchAllData_finally_def fetchAllData_begin_def fetchAllData_then_def
        apiCall_request_def app_loaded_def complete_def no_slots_def value_of_def
        app_setters_def clearStoredAuth_def response_ok_def
        batch_unauthorized_def unauthorized_def overview_ok_def ratings_ok_def interviews_ok_def
        app_init_def App_render_def truthy_def js_or_def dashboard_error_def)

end
